theory Spec2Isabelle
  imports Complex_Main
begin

section \<open>Data model of the carousel home screen\<close>

text \<open>
  The component is a single script block whose mutable variables are Vue refs. The model
  collects them in one record and turns every handler into a function from state to state.
  Pixel quantities (\<open>clientX\<close>, \<open>containerWidth\<close>, \<open>dragOffset\<close>) are JavaScript numbers,
  here the reals that are doubles; their subtraction rounds as the doubles' does (section
  "JavaScript numbers"). The slide index and the track position are \<open>int\<close>.
\<close>

text \<open>
  A slide object is a tagged union on its \<open>type\<close> field: promo slides carry \<open>type: 'image'\<close>
  with \<open>src\<close> and \<open>alt\<close>, the synthetic slide carries \<open>type: 'placeholder'\<close> with a
  message. \<open>originalId\<close> is absent (\<open>None\<close>) until the \<open>slides\<close> computed adds it.
\<close>

datatype slide =
    ImageSlide (slide_id: string) (src: string) (alt: string) (originalId: "string option")
  | PlaceholderSlide (slide_id: string) (originalId: "string option") (message: string)

record carousel =
  slidesSource :: "slide list"
  allowTransition :: bool
  trackPosition :: int
  currentIndex :: int
  containerWidth :: real
  dragOffset :: real
  isAnimating :: bool
  isPointerDown :: bool
  isDragging :: bool
  pointerId :: "int option"
  dragStartX :: real
  isModalOpen :: bool
  isStartingSession :: bool
  modalError :: string
  cursorHidden :: bool
  cursorTimer :: bool
  preloadCache :: "string list"

text \<open>
  \<open>pointerId\<close> is \<open>null\<close> (\<open>None\<close>) or the id of the captured pointer. \<open>cursorTimer\<close>
  abstracts the timer handle to whether a cursor-hide timeout is pending: \<open>clearTimeout\<close>
  makes it \<open>False\<close>, \<open>setTimeout\<close> makes it \<open>True\<close>. \<open>preloadCache\<close> is the JavaScript
  \<open>Set\<close> of source strings, kept as the list of its members in insertion order.
\<close>

definition placeholderSlide :: slide where
  "placeholderSlide = PlaceholderSlide ''placeholder'' (Some ''placeholder'') ''No promos available''"

definition hasRealSlides :: "carousel \<Rightarrow> bool" where
  "hasRealSlides s = (length (slidesSource s) > 0)"

fun with_originalId :: "slide \<Rightarrow> slide" where
  "with_originalId (ImageSlide i u a oi) = ImageSlide i u a (Some i)"
| "with_originalId (PlaceholderSlide i oi m) = PlaceholderSlide i (Some i) m"

definition slides :: "carousel \<Rightarrow> slide list" where
  "slides s = (if \<not> hasRealSlides s then [placeholderSlide]
               else map with_originalId (slidesSource s))"

definition totalSlides :: "carousel \<Rightarrow> int" where
  "totalSlides s = int (length (slides s))"

section \<open>Navigation\<close>

definition goNext :: "carousel \<Rightarrow> carousel" where
  "goNext s =
     (let total = totalSlides s in
      if \<not> hasRealSlides s \<or> total \<le> 1 then s
      else if isAnimating s then s
      else if currentIndex s \<ge> total - 1 then s
      else
        (let s1 = s\<lparr>allowTransition := True, dragOffset := 0, isAnimating := True,
                     currentIndex := currentIndex s + 1\<rparr>
         in s1\<lparr>trackPosition := currentIndex s1\<rparr>))"

definition goPrev :: "carousel \<Rightarrow> carousel" where
  "goPrev s =
     (let total = totalSlides s in
      if \<not> hasRealSlides s \<or> total \<le> 1 then s
      else if isAnimating s then s
      else if currentIndex s \<le> 0 then s
      else
        (let s1 = s\<lparr>allowTransition := True, dragOffset := 0, isAnimating := True,
                     currentIndex := currentIndex s - 1\<rparr>
         in s1\<lparr>trackPosition := currentIndex s1\<rparr>))"

definition finishTransitionIfNeeded :: "carousel \<Rightarrow> carousel" where
  "finishTransitionIfNeeded s =
     (if \<not> isAnimating s then s
      else
        (let total = totalSlides s in
         if \<not> hasRealSlides s \<or> total \<le> 1 then s\<lparr>isAnimating := False\<rparr>
         else s\<lparr>isAnimating := False\<rparr>))"

text \<open>
  A sequence of navigation requests, interleaved with the transition-end events that end
  an animation (without them every request after the first one is refused as "animating").
\<close>

datatype nav_call = GoNext | GoPrev | TransitionEnd

fun nav_step :: "nav_call \<Rightarrow> carousel \<Rightarrow> carousel" where
  "nav_step GoNext s = goNext s"
| "nav_step GoPrev s = goPrev s"
| "nav_step TransitionEnd s = finishTransitionIfNeeded s"

fun run_nav :: "nav_call list \<Rightarrow> carousel \<Rightarrow> carousel" where
  "run_nav [] s = s"
| "run_nav (c # cs) s = run_nav cs (nav_step c s)"

definition index_in_range :: "carousel \<Rightarrow> bool" where
  "index_in_range s = (0 \<le> currentIndex s \<and> currentIndex s < totalSlides s)"

section \<open>Cursor timer and session-start modal\<close>

definition resetCursorTimer :: "carousel \<Rightarrow> carousel" where
  "resetCursorTimer s =
     (let s1 = s\<lparr>cursorHidden := False\<rparr>;
          s2 = (if cursorTimer s1 then s1\<lparr>cursorTimer := False\<rparr> else s1)
      in if isModalOpen s2 then s2 else s2\<lparr>cursorTimer := True\<rparr>)"

definition cursorTimeout :: "carousel \<Rightarrow> carousel" where
  \<comment> \<open>the callback \<open>() => { cursorHidden.value = true }\<close> of a pending timeout\<close>
  "cursorTimeout s =
     (if cursorTimer s then s\<lparr>cursorHidden := True, cursorTimer := False\<rparr> else s)"

definition openModal :: "carousel \<Rightarrow> carousel" where
  "openModal s =
     (if isModalOpen s then s
      else
        (let s1 = (if cursorTimer s then s\<lparr>cursorTimer := False\<rparr> else s)
         in s1\<lparr>cursorHidden := False, modalError := '''', isModalOpen := True\<rparr>))"

definition closeModal :: "carousel \<Rightarrow> carousel" where
  "closeModal s =
     (if isStartingSession s then s
      else resetCursorTimer (s\<lparr>modalError := '''', isModalOpen := False\<rparr>))"

text \<open>
  Everything the script does to the outside world: the session-start request, the route
  change, the error log and the image preload requests.
\<close>

datatype effect =
    FetchSessionStart
  | RouterPush string
  | ConsoleError string
  | PreloadImage string

text \<open>
  What the awaited \<open>fetch\<close> settles with. A rejected promise carries the message of the
  error it rejects with. A response carries its status and what \<open>response.json()\<close>
  gives: a rejection (\<open>MalformedBody\<close>) or the parsed value, which can be any JSON value.

  A parsed number is given by the decimal string JavaScript prints it as (\<open>String(n)\<close>):
  \<open>JNumber ''42''\<close>, \<open>JNumber ''0.1''\<close>, \<open>JNumber ''1e+21''\<close>; both zeros print as \<open>0\<close>. A parsed
  object is the list of its own properties, each key once.
\<close>

datatype json =
    JNull
  | JBool bool
  | JNumber string
  | JString string
  | JArray "json list"
  | JObject "(string \<times> json) list"

datatype response_body = MalformedBody | Payload json

record response =
  status :: nat
  body :: response_body

datatype fetch_result = FetchRejected string | FetchResponse response

definition response_ok :: "response \<Rightarrow> bool" where
  \<comment> \<open>\<open>response.ok\<close> of the Fetch API: the status is in the range 200 to 299\<close>
  "response_ok r = (200 \<le> status r \<and> status r \<le> 299)"

definition fallbackMessage :: string where
  "fallbackMessage = ''Failed to start the photo session. Please try again.''"

definition unexpectedMessage :: string where
  "unexpectedMessage = ''Unexpected error starting session.''"

definition cannot_convert_message :: string where
  \<comment> \<open>the message of the \<open>TypeError\<close> a failed conversion to a string throws; the wording is
      the engine's own, here V8's\<close>
  "cannot_convert_message = ''Cannot convert object to primitive value''"

fun truthy :: "json \<Rightarrow> bool" where
  "truthy JNull = False"
| "truthy (JBool b) = b"
| "truthy (JNumber n) = (n \<noteq> ''0'')"
| "truthy (JString t) = (t \<noteq> '''')"
| "truthy (JArray xs) = True"
| "truthy (JObject ps) = True"

fun join_comma :: "string list \<Rightarrow> string" where
  "join_comma [] = ''''"
| "join_comma [x] = x"
| "join_comma (x # y # ys) = x @ '','' @ join_comma (y # ys)"

text \<open>
  JavaScript's conversion of a value to a string, as \<open>new Error(value)\<close> applies it to its
  argument. An array is joined with commas, a \<open>null\<close> element giving the empty string. A
  plain object gives \<open>[object Object]\<close>, unless it has an own property \<open>toString\<close>: a parsed
  value is never callable, so the conversion then throws a \<open>TypeError\<close> (\<open>None\<close>).
\<close>

fun js_to_string :: "json \<Rightarrow> string option" where
  "js_to_string JNull = Some ''null''"
| "js_to_string (JBool b) = Some (if b then ''true'' else ''false'')"
| "js_to_string (JNumber n) = Some n"
| "js_to_string (JString t) = Some t"
| "js_to_string (JArray xs) =
     map_option join_comma
       (those (map (\<lambda>x. if x = JNull then Some '''' else js_to_string x) xs))"
| "js_to_string (JObject ps) =
     (if map_of ps ''toString'' \<noteq> None then None else Some ''[object Object]'')"

definition payload_message :: "response_body \<Rightarrow> json option" where
  \<comment> \<open>\<open>(await response.json().catch(() => ({})))?.message\<close>: \<open>undefined\<close> (\<open>None\<close>) unless the
      payload is an object with a \<open>message\<close> property\<close>
  "payload_message b =
     (case b of
        MalformedBody \<Rightarrow> None
      | Payload (JObject ps) \<Rightarrow> map_of ps ''message''
      | Payload other \<Rightarrow> None)"

definition message_or_fallback :: "json option \<Rightarrow> json" where
  \<comment> \<open>\<open>payload?.message || fallbackMessage\<close>\<close>
  "message_or_fallback m =
     (case m of
        None \<Rightarrow> JString fallbackMessage
      | Some v \<Rightarrow> if truthy v then v else JString fallbackMessage)"

definition new_Error :: "json \<Rightarrow> string" where
  \<comment> \<open>the message of what \<open>throw new Error(v)\<close> throws: the \<open>Error\<close> whose message is \<open>v\<close> as a
      string, or the \<open>TypeError\<close> of the conversion\<close>
  "new_Error v = (case js_to_string v of Some t \<Rightarrow> t | None \<Rightarrow> cannot_convert_message)"

text \<open>
  \<open>confirmStart\<close> is an async function. The part before the \<open>await\<close> runs when it is
  called; the rest runs when the request settles. The \<open>try\<close> block is a function whose
  \<open>Inl\<close> result is the message of the error it throws.
\<close>

definition confirmStart_begin :: "carousel \<Rightarrow> carousel \<times> effect list" where
  "confirmStart_begin s =
     (if isStartingSession s then (s, [])
      else (s\<lparr>modalError := '''', isStartingSession := True\<rparr>, [FetchSessionStart]))"

definition confirmStart_try :: "fetch_result \<Rightarrow> carousel \<Rightarrow> string + carousel \<times> effect list" where
  "confirmStart_try r s =
     (case r of
        FetchRejected m \<Rightarrow> Inl m
      | FetchResponse resp \<Rightarrow>
          if \<not> response_ok resp
          then Inl (new_Error (message_or_fallback (payload_message (body resp))))
          else Inr (s\<lparr>isModalOpen := False\<rparr>, [RouterPush ''photo-session'']))"

definition confirmStart_settle :: "fetch_result \<Rightarrow> carousel \<Rightarrow> carousel \<times> effect list" where
  "confirmStart_settle r s =
     (let (s1, es) =
            (case confirmStart_try r s of
               Inr done \<Rightarrow> done
             | Inl error_message \<Rightarrow>
                 (s\<lparr>modalError := (if error_message \<noteq> '''' then error_message
                                     else unexpectedMessage)\<rparr>,
                  [ConsoleError error_message]))
      in (s1\<lparr>isStartingSession := False\<rparr>, es))"

section \<open>JavaScript numbers\<close>

text \<open>
  Pointer coordinates are IEEE 754 doubles, and the handlers subtract them. The difference
  of two doubles is the exact difference rounded to the nearest double, ties to the even
  significand; \<open>to_double\<close> is that rounding on the reals (53-bit significand, exponents
  from \<open>-1022\<close>, subnormals below). A result of magnitude \<open>2 ^ 1024\<close> or more overflows to
  \<open>Infinity\<close>: the real \<open>2 ^ 1024\<close>, which is no double, stands for it, and compares with
  every double the way \<open>Infinity\<close> does. The only product the handlers take,
  \<open>containerWidth * 0.25\<close>, is exact: \<open>clientWidth\<close> is an integer.
\<close>

function ilog2 :: "int \<Rightarrow> int" where
  \<comment> \<open>the binary logarithm of a positive integer, rounded down\<close>
  "ilog2 n = (if n < 2 then 0 else 1 + ilog2 (n div 2))"
  by pat_completeness auto
termination
  by (relation "measure nat") auto

declare ilog2.simps [simp del]

definition pow2 :: "int \<Rightarrow> real" where
  "pow2 e = (if 0 \<le> e then 2 ^ nat e else 1 / 2 ^ nat (- e))"

definition floor_log2 :: "real \<Rightarrow> int" where
  \<comment> \<open>for \<open>x > 0\<close>: the \<open>e\<close> with \<open>2 ^ e \<le> x < 2 ^ (e + 1)\<close>\<close>
  "floor_log2 x =
     (if 1 \<le> x then ilog2 \<lfloor>x\<rfloor>
      else (let k = ilog2 \<lfloor>1 / x\<rfloor>
            in if x * pow2 k = 1 then - k else - k - 1))"

definition round_half_even :: "real \<Rightarrow> int" where
  "round_half_even y =
     (let f = \<lfloor>y\<rfloor>; d = y - of_int f
      in if d < 1 / 2 then f else if 1 / 2 < d then f + 1
         else if f mod 2 = 0 then f else f + 1)"

definition to_double :: "real \<Rightarrow> real" where
  "to_double x =
     (if x = 0 then 0
      else
        (let e = max (floor_log2 \<bar>x\<bar>) (- 1022);
             q = pow2 (e - 52);
             r = of_int (round_half_even (x / q)) * q
         in if e < 1023 then r
            else if pow2 1024 \<le> \<bar>r\<bar> then sgn x * pow2 1024
            else r))"

definition js_sub :: "real \<Rightarrow> real \<Rightarrow> real" where
  \<comment> \<open>JavaScript \<open>a - b\<close> on two finite numbers\<close>
  "js_sub a b = to_double (a - b)"

section \<open>Pointer gestures\<close>

record pointer_event =
  clientX :: real
  eventPointerId :: int

definition pointerThreshold :: "carousel \<Rightarrow> real" where
  \<comment> \<open>\<open>Math.min(160, containerWidth.value * 0.25 || 160)\<close>: a zero product is falsy\<close>
  "pointerThreshold s =
     min 160 (let q = containerWidth s * 0.25 in if q = 0 then 160 else q)"

definition resetDragState :: "carousel \<Rightarrow> carousel" where
  "resetDragState s =
     s\<lparr>dragOffset := 0, isDragging := False, isPointerDown := False, pointerId := None\<rparr>"

definition handlePointerDown :: "pointer_event \<Rightarrow> carousel \<Rightarrow> carousel" where
  "handlePointerDown event s =
     (if isModalOpen s then s
      else
        (let s1 = resetCursorTimer s
         in s1\<lparr>isPointerDown := True, pointerId := Some (eventPointerId event),
                dragStartX := clientX event, dragOffset := 0, isDragging := False,
                allowTransition := False\<rparr>))"

definition handlePointerMove :: "pointer_event \<Rightarrow> carousel \<Rightarrow> carousel" where
  "handlePointerMove event s =
     (if \<not> isPointerDown s \<or> isModalOpen s then s
      else
        (let deltaX = js_sub (clientX event) (dragStartX s);
             s1 = (if \<not> isDragging s \<and> \<bar>deltaX\<bar> > 20
                   then s\<lparr>isDragging := True, isAnimating := False\<rparr> else s)
         in if isDragging s1 then s1\<lparr>dragOffset := deltaX\<rparr> else s1))"

definition triggerNavigationForDrag :: "real \<Rightarrow> carousel \<Rightarrow> bool \<times> carousel" where
  "triggerNavigationForDrag deltaX s =
     (let total = totalSlides s in
      if \<not> hasRealSlides s \<or> total \<le> 1
      then (False, s\<lparr>allowTransition := True, dragOffset := 0\<rparr>)
      else if \<bar>deltaX\<bar> < pointerThreshold s
      then (False, s\<lparr>allowTransition := True, dragOffset := 0\<rparr>)
      else if deltaX < 0 then (True, goNext s)
      else (True, goPrev s))"

definition handlePointerUp :: "pointer_event \<Rightarrow> carousel \<Rightarrow> carousel" where
  "handlePointerUp event s =
     (if \<not> isPointerDown s then s
      else
        (let deltaX = js_sub (clientX event) (dragStartX s);
             (navigated, s1) =
                (if isDragging s then triggerNavigationForDrag deltaX s else (False, s));
             s2 = (if \<not> isDragging s1 \<and> \<not> navigated \<and> \<not> isModalOpen s1 then openModal s1
                   else if isDragging s1 \<and> \<bar>deltaX\<bar> \<le> 20 \<and> \<not> navigated \<and> \<not> isModalOpen s1
                   then openModal s1
                   else s1);
             s3 = (if \<not> navigated \<and> \<not> isModalOpen s2
                   then s2\<lparr>allowTransition := True, dragOffset := 0\<rparr> else s2)
         in resetCursorTimer (resetDragState s3)))"

definition handlePointerCancel :: "pointer_event \<Rightarrow> carousel \<Rightarrow> carousel" where
  "handlePointerCancel event s =
     (if \<not> isPointerDown s then s
      else resetCursorTimer (resetDragState (s\<lparr>allowTransition := True, dragOffset := 0\<rparr>)))"

definition handlePointerLeave :: "pointer_event \<Rightarrow> carousel \<Rightarrow> carousel" where
  "handlePointerLeave event s =
     (if \<not> isPointerDown s then s else handlePointerUp event s)"

text \<open>
  The calls \<open>setPointerCapture\<close>, \<open>releasePointerCapture\<close> and \<open>preventDefault\<close> act on
  the browser's event target only and leave every variable of the script as it is; they
  are not part of the state.
\<close>

section \<open>Keyboard\<close>

datatype key = ArrowRight | ArrowLeft | Enter | Escape | OtherKey

record keyboard_event =
  key :: key
  repeat :: bool

definition handleKeydown :: "keyboard_event \<Rightarrow> carousel \<Rightarrow> carousel \<times> effect list" where
  "handleKeydown event s =
     (if repeat event then (s, [])
      else
        (case key event of
           ArrowRight \<Rightarrow> (if \<not> isModalOpen s then goNext s else s, [])
         | ArrowLeft \<Rightarrow> (if \<not> isModalOpen s then goPrev s else s, [])
         | Enter \<Rightarrow> (if isModalOpen s then confirmStart_begin s else (openModal s, []))
         | Escape \<Rightarrow> (if isModalOpen s then closeModal s else s, [])
         | OtherKey \<Rightarrow> (s, [])))"

section \<open>Preloading neighbouring images\<close>

definition maxPreloadCacheSize :: nat where
  "maxPreloadCacheSize = 50"

definition js_rem :: "int \<Rightarrow> int \<Rightarrow> int" where
  \<comment> \<open>JavaScript \<open>a % b\<close> on integers, \<open>b\<close> not zero: the result has the sign of \<open>a\<close>\<close>
  "js_rem a b = sgn a * (\<bar>a\<bar> mod \<bar>b\<bar>)"

definition slide_at :: "slide list \<Rightarrow> int \<Rightarrow> slide option" where
  \<comment> \<open>\<open>slides.value[idx]\<close>: \<open>undefined\<close> out of range\<close>
  "slide_at xs i = (if 0 \<le> i \<and> i < int (length xs) then Some (xs ! nat i) else None)"

definition cache_add :: "string \<Rightarrow> string list \<Rightarrow> string list" where
  \<comment> \<open>\<open>Set.prototype.add\<close>: a new member goes last\<close>
  "cache_add x c = (if x \<in> set c then c else c @ [x])"

definition cache_delete :: "string \<Rightarrow> string list \<Rightarrow> string list" where
  "cache_delete x c = removeAll x c"

definition evict_oldest :: "string list \<Rightarrow> string list" where
  \<comment> \<open>\<open>firstEntry = preloadCache.values().next().value; if (firstEntry) delete\<close>\<close>
  "evict_oldest c =
     (case c of
        [] \<Rightarrow> c
      | firstEntry # rest \<Rightarrow> if firstEntry \<noteq> '''' then cache_delete firstEntry c else c)"

definition preloadOne :: "slide list \<Rightarrow> string list \<times> effect list \<Rightarrow> int
    \<Rightarrow> string list \<times> effect list" where
  "preloadOne sls acc idx =
     (case acc of (cache, requests) \<Rightarrow>
        (case slide_at sls idx of
           None \<Rightarrow> (cache, requests)
         | Some (PlaceholderSlide i oi m) \<Rightarrow> (cache, requests)
         | Some (ImageSlide i u a oi) \<Rightarrow>
             if u \<notin> set cache
             then
               (let c1 = cache_add u cache;
                    c2 = (if length c1 > maxPreloadCacheSize then evict_oldest c1 else c1)
                in (c2, requests @ [PreloadImage u]))
             else (cache, requests)))"

definition preload_indices :: "carousel \<Rightarrow> int list" where
  "preload_indices s =
     (let total = int (length (slides s)) in
      [currentIndex s,
       js_rem (currentIndex s + 1) total,
       js_rem (currentIndex s - 1 + total) total])"

definition preloadWatch :: "carousel \<Rightarrow> carousel \<times> effect list" where
  "preloadWatch s =
     (if \<not> hasRealSlides s then (s, [])
      else
        (let (c, requests) = foldl (preloadOne (slides s)) (preloadCache s, []) (preload_indices s)
         in (s\<lparr>preloadCache := c\<rparr>, requests)))"

section \<open>The component as an event-driven machine\<close>

text \<open>
  The browser delivers one event at a time and each handler runs to completion.
  \<open>inflight\<close> counts the session-start requests that were issued and have not settled;
  \<open>emitted\<close> is the log of all effects. \<open>ClickCancel\<close> and \<open>ClickConfirm\<close> are the two
  modal buttons, bound to \<open>closeModal\<close> and \<open>confirmStart\<close>. \<open>FetchSettled\<close> resumes
  \<open>confirmStart\<close> after its \<open>await\<close> and happens only while a request is in flight.
  \<open>AnimationFrame\<close> is the callback the first watcher hands to \<open>requestAnimationFrame\<close>,
  \<open>CursorTimeout\<close> the expiry of the cursor timer, \<open>Resize\<close> the window's resize event
  with the width the root element then has. The preload watcher observes \<open>currentIndex\<close>
  and \<open>hasRealSlides\<close>; the slide list never changes after setup, so it runs after a
  handler that changed \<open>currentIndex\<close> (and once at setup, as does the watcher that resets
  the carousel).
\<close>

datatype event =
    PointerDown pointer_event
  | PointerMove pointer_event
  | PointerUp pointer_event
  | PointerCancel pointer_event
  | PointerLeave pointer_event
  | Keydown keyboard_event
  | TransitionEnded
  | Resize real
  | ClickCancel
  | ClickConfirm
  | FetchSettled fetch_result
  | AnimationFrame
  | CursorTimeout

record world =
  ui :: carousel
  inflight :: nat
  emitted :: "effect list"

definition updateBounds :: "real \<Rightarrow> carousel \<Rightarrow> carousel" where
  \<comment> \<open>\<open>clientWidth\<close> is the width the mounted root element reports\<close>
  "updateBounds clientWidth s = s\<lparr>containerWidth := clientWidth\<rparr>"

definition handle :: "event \<Rightarrow> world \<Rightarrow> carousel \<times> effect list" where
  "handle ev w =
     (let s = ui w in
      case ev of
        PointerDown e \<Rightarrow> (handlePointerDown e s, [])
      | PointerMove e \<Rightarrow> (handlePointerMove e s, [])
      | PointerUp e \<Rightarrow> (handlePointerUp e s, [])
      | PointerCancel e \<Rightarrow> (handlePointerCancel e s, [])
      | PointerLeave e \<Rightarrow> (handlePointerLeave e s, [])
      | Keydown e \<Rightarrow> handleKeydown e s
      | TransitionEnded \<Rightarrow> (finishTransitionIfNeeded s, [])
      | Resize cw \<Rightarrow> (updateBounds cw s, [])
      | ClickCancel \<Rightarrow> (closeModal s, [])
      | ClickConfirm \<Rightarrow> confirmStart_begin s
      | FetchSettled r \<Rightarrow> (if inflight w = 0 then (s, []) else confirmStart_settle r s)
      | AnimationFrame \<Rightarrow> (s\<lparr>allowTransition := True\<rparr>, [])
      | CursorTimeout \<Rightarrow> (cursorTimeout s, []))"

definition count_fetches :: "effect list \<Rightarrow> nat" where
  "count_fetches es = length (filter (\<lambda>e. e = FetchSessionStart) es)"

definition step :: "event \<Rightarrow> world \<Rightarrow> world" where
  "step ev w =
     (let (s1, es1) = handle ev w;
          (s2, es2) = (if currentIndex s1 \<noteq> currentIndex (ui w) then preloadWatch s1
                       else (s1, []));
          settled = (case ev of FetchSettled r \<Rightarrow> (if inflight w = 0 then 0 else 1) | _ \<Rightarrow> 0)
      in \<lparr>ui = s2,
          inflight = inflight w - settled + count_fetches (es1 @ es2),
          emitted = emitted w @ es1 @ es2\<rparr>)"

fun run :: "event list \<Rightarrow> world \<Rightarrow> world" where
  "run [] w = w"
| "run (ev # evs) w = run evs (step ev w)"

definition setup_state :: "slide list \<Rightarrow> carousel" where
  \<comment> \<open>the initial values of the refs\<close>
  "setup_state promoSlides =
     \<lparr>slidesSource = promoSlides, allowTransition = True, trackPosition = 0,
      currentIndex = 0, containerWidth = 0, dragOffset = 0, isAnimating = False,
      isPointerDown = False, isDragging = False, pointerId = None, dragStartX = 0,
      isModalOpen = False, isStartingSession = False, modalError = '''',
      cursorHidden = False, cursorTimer = False, preloadCache = []\<rparr>"

definition mounted :: "slide list \<Rightarrow> real \<Rightarrow> world" where
  \<comment> \<open>the two immediate watchers, then \<open>onMounted\<close>\<close>
  "mounted promoSlides clientWidth =
     (let s0 = setup_state promoSlides;
          s1 = s0\<lparr>allowTransition := False, trackPosition := 0, currentIndex := 0,
                  dragOffset := 0, isAnimating := False\<rparr>;
          (s2, es) = preloadWatch s1;
          s3 = resetCursorTimer (updateBounds clientWidth s2)
      in \<lparr>ui = s3, inflight = 0, emitted = es\<rparr>)"

section \<open>State predicates used by the properties\<close>

definition drag_reset :: "carousel \<Rightarrow> bool" where
  "drag_reset s =
     (dragOffset s = 0 \<and> \<not> isDragging s \<and> \<not> isPointerDown s \<and> pointerId s = None)"

definition drag_inv :: "carousel \<Rightarrow> bool" where
  "drag_inv s = (isPointerDown s \<or> drag_reset s)"

definition same_drag :: "carousel \<Rightarrow> carousel \<Rightarrow> bool" where
  "same_drag s t =
     (isPointerDown t = isPointerDown s \<and> isDragging t = isDragging s
      \<and> pointerId t = pointerId s
      \<and> (dragOffset t = dragOffset s \<or> dragOffset t = 0))"

definition busy_inv :: "world \<Rightarrow> bool" where
  "busy_inv w = (inflight w = (if isStartingSession (ui w) then 1 else 0))"

definition cache_ok :: "string list \<Rightarrow> bool" where
  \<comment> \<open>a \<open>Set\<close> of at most 50 non-empty strings\<close>
  "cache_ok c = (distinct c \<and> length c \<le> maxPreloadCacheSize \<and> '''' \<notin> set c)"

fun src_ok :: "slide \<Rightarrow> bool" where
  "src_ok (ImageSlide i u a oi) = (u \<noteq> '''')"
| "src_ok (PlaceholderSlide i oi m) = True"

definition srcs_ok :: "slide list \<Rightarrow> bool" where
  \<comment> \<open>what the filter \<open>typeof url === 'string' && url\<close> leaves: every promo has a non-empty URL\<close>
  "srcs_ok sls = list_all src_ok sls"

definition same_static :: "carousel \<Rightarrow> carousel \<Rightarrow> bool" where
  "same_static s t = (slidesSource t = slidesSource s \<and> preloadCache t = preloadCache s)"

section \<open>Example data\<close>

text \<open>
  Concrete slide lists, event sequences and responses on which the properties below are
  evaluated.
\<close>

definition example_promos :: "slide list" where
  "example_promos =
     [ImageSlide ''1.png'' ''/images/promos/1.png'' ''1 promotion'' None,
      ImageSlide ''2.png'' ''/images/promos/2.png'' ''2 promotion'' None,
      ImageSlide ''3.png'' ''/images/promos/3.png'' ''3 promotion'' None,
      ImageSlide ''4.png'' ''/images/promos/4.png'' ''4 promotion'' None,
      ImageSlide ''5.png'' ''/images/promos/5.png'' ''5 promotion'' None]"

definition example_state :: carousel where
  \<comment> \<open>five promos, the first one shown, in a container 600 pixels wide\<close>
  "example_state = (setup_state example_promos)\<lparr>containerWidth := 600\<rparr>"

definition release_position :: "real \<Rightarrow> pointer_event" where
  "release_position x = \<lparr>clientX = x, eventPointerId = 1\<rparr>"

definition press_only :: "event list" where
  "press_only = [AnimationFrame, PointerDown \<lparr>clientX = 300, eventPointerId = 1\<rparr>]"

definition press_and_drag_left :: "event list" where
  \<comment> \<open>press at x = 300 and drag to x = 100, not yet released\<close>
  "press_and_drag_left =
     [PointerDown \<lparr>clientX = 300, eventPointerId = 1\<rparr>,
      PointerMove \<lparr>clientX = 100, eventPointerId = 1\<rparr>]"

definition drag_left_gesture :: "event list" where
  \<comment> \<open>press at x = 300, drag to x = 100, release there\<close>
  "drag_left_gesture =
     [AnimationFrame,
      PointerDown \<lparr>clientX = 300, eventPointerId = 1\<rparr>,
      PointerMove \<lparr>clientX = 100, eventPointerId = 1\<rparr>,
      PointerUp \<lparr>clientX = 100, eventPointerId = 1\<rparr>]"

definition fractional_press :: "event list" where
  \<comment> \<open>press at the double nearest 20.7 and move to x = 79: dragging engages\<close>
  "fractional_press =
     [AnimationFrame,
      PointerDown \<lparr>clientX = to_double 20.7, eventPointerId = 1\<rparr>,
      PointerMove \<lparr>clientX = 79, eventPointerId = 1\<rparr>]"

definition press_and_wiggle :: "event list" where
  \<comment> \<open>press at x = 100 and move to x = 70: dragging engages (30 pixels)\<close>
  "press_and_wiggle =
     [AnimationFrame,
      PointerDown \<lparr>clientX = 100, eventPointerId = 1\<rparr>,
      PointerMove \<lparr>clientX = 70, eventPointerId = 1\<rparr>]"

definition at_last_slide :: "event list" where
  \<comment> \<open>four ArrowRight presses, each animation finished: the last of five slides is shown\<close>
  "at_last_slide =
     [AnimationFrame,
      Keydown \<lparr>key = ArrowRight, repeat = False\<rparr>, TransitionEnded,
      Keydown \<lparr>key = ArrowRight, repeat = False\<rparr>, TransitionEnded,
      Keydown \<lparr>key = ArrowRight, repeat = False\<rparr>, TransitionEnded,
      Keydown \<lparr>key = ArrowRight, repeat = False\<rparr>, TransitionEnded]"

definition confirm_pressed :: "event list" where
  \<comment> \<open>Enter opens the modal, a click on the confirm button starts the request\<close>
  "confirm_pressed = [Keydown \<lparr>key = Enter, repeat = False\<rparr>, ClickConfirm]"




definition filler :: "nat \<Rightarrow> string" where
  "filler n = ''/cached/'' @ replicate n (CHR ''x'')"

definition full_cache :: "string list" where
  \<comment> \<open>fifty distinct sources, \<open>filler 1\<close> inserted first\<close>
  "full_cache = map filler [1..<51]"

section \<open>Properties\<close>

lemma slidesSource_nav_step [simp]: "slidesSource (nav_step c s) = slidesSource s"
  by (cases c) (simp_all add: goNext_def goPrev_def finishTransitionIfNeeded_def Let_def)

lemma totalSlides_cong: "slidesSource t = slidesSource s \<Longrightarrow> totalSlides t = totalSlides s"
  by (simp add: totalSlides_def slides_def hasRealSlides_def)

lemma index_in_range_nav_step: "index_in_range s \<Longrightarrow> index_in_range (nav_step c s)"
proof (cases c)
  case GoNext
  assume "index_in_range s"
  then show ?thesis
    using GoNext totalSlides_cong [of "goNext s" s] slidesSource_nav_step [of GoNext s]
    by (auto simp: index_in_range_def goNext_def Let_def)
next
  case GoPrev
  assume "index_in_range s"
  then show ?thesis
    using GoPrev totalSlides_cong [of "goPrev s" s] slidesSource_nav_step [of GoPrev s]
    by (auto simp: index_in_range_def goPrev_def Let_def)
next
  case TransitionEnd
  assume "index_in_range s"
  then show ?thesis
    using TransitionEnd totalSlides_cong [of "finishTransitionIfNeeded s" s]
      slidesSource_nav_step [of TransitionEnd s]
    by (auto simp: index_in_range_def finishTransitionIfNeeded_def Let_def)
qed

lemma index_in_range_run_nav: "index_in_range s \<Longrightarrow> index_in_range (run_nav cs s)"
  by (induction cs arbitrary: s) (simp_all add: index_in_range_nav_step)

subsection \<open>Navigation is a bounded, non-wrapping walk\<close>

lemma goNext_last: "currentIndex s = totalSlides s - 1 \<Longrightarrow> goNext s = s"
  by (simp add: goNext_def Let_def)

lemma goPrev_first: "currentIndex s = 0 \<Longrightarrow> goPrev s = s"
  by (simp add: goPrev_def Let_def)

lemma goNext_index:
  "currentIndex (goNext s) = currentIndex s \<or> currentIndex (goNext s) = currentIndex s + 1"
  by (simp add: goNext_def Let_def)

lemma goPrev_index:
  "currentIndex (goPrev s) = currentIndex s \<or> currentIndex (goPrev s) = currentIndex s - 1"
  by (simp add: goPrev_def Let_def)

text \<open>
  Claim C1. From a state whose index lies in \<open>[0, count - 1]\<close>, every sequence of
  \<open>goNext\<close> and \<open>goPrev\<close> calls (with transition-end events anywhere between them) ends
  in a state whose index lies in \<open>[0, count - 1]\<close>. \<open>goNext\<close> at index \<open>count - 1\<close> and
  \<open>goPrev\<close> at index \<open>0\<close> return the state they were given. Navigation does not wrap:
  \<open>goNext\<close> keeps the index or adds one, \<open>goPrev\<close> keeps it or subtracts one.
\<close>

theorem navigation_index_bounded:
  "(index_in_range s \<longrightarrow> index_in_range (run_nav cs s))
   \<and> (currentIndex s = totalSlides s - 1 \<longrightarrow> goNext s = s)
   \<and> (currentIndex s = 0 \<longrightarrow> goPrev s = s)
   \<and> (currentIndex (goNext s) = currentIndex s \<or> currentIndex (goNext s) = currentIndex s + 1)
   \<and> (currentIndex (goPrev s) = currentIndex s \<or> currentIndex (goPrev s) = currentIndex s - 1)"
  using index_in_range_run_nav goNext_last goPrev_first goNext_index goPrev_index by blast

theorem navigation_index_bounded_witness:
  "index_in_range example_state
   \<and> index_in_range (run_nav [GoNext, TransitionEnd, GoNext, GoPrev] example_state)
   \<and> currentIndex example_state = 0
   \<and> goPrev example_state = example_state
   \<and> currentIndex (example_state\<lparr>currentIndex := 4\<rparr>)
       = totalSlides (example_state\<lparr>currentIndex := 4\<rparr>) - 1
   \<and> goNext (example_state\<lparr>currentIndex := 4\<rparr>) = example_state\<lparr>currentIndex := 4\<rparr>"
  using navigation_index_bounded [of example_state "[GoNext, TransitionEnd, GoNext, GoPrev]"]
    navigation_index_bounded [of "example_state\<lparr>currentIndex := 4\<rparr>" "[]"]
  by (simp add: index_in_range_def example_state_def setup_state_def example_promos_def
      totalSlides_def slides_def hasRealSlides_def)

subsection \<open>What the preload watcher and a machine step leave alone\<close>

lemma preloadOne_requests:
  "count_fetches (snd (preloadOne sls acc idx)) = count_fetches (snd acc)"
  by (cases acc) (simp add: preloadOne_def count_fetches_def Let_def split: option.splits slide.splits)

lemma foldl_preloadOne_requests:
  "count_fetches (snd (foldl (preloadOne sls) acc idxs)) = count_fetches (snd acc)"
  by (induction idxs arbitrary: acc) (simp_all add: preloadOne_requests)

lemma preloadWatch_no_fetch: "count_fetches (snd (preloadWatch s)) = 0"
proof (cases "hasRealSlides s")
  case False
  then show ?thesis by (simp add: preloadWatch_def count_fetches_def)
next
  case True
  have "count_fetches (snd (foldl (preloadOne (slides s)) (preloadCache s, []) (preload_indices s))) = 0"
    by (simp add: foldl_preloadOne_requests) (simp add: count_fetches_def)
  with True show ?thesis by (simp add: preloadWatch_def split_def Let_def)
qed

lemma preloadWatch_frame: "\<exists>c. fst (preloadWatch s) = s\<lparr>preloadCache := c\<rparr>"
proof (cases "hasRealSlides s")
  case False
  then have "fst (preloadWatch s) = s\<lparr>preloadCache := preloadCache s\<rparr>"
    by (simp add: preloadWatch_def)
  then show ?thesis by blast
next
  case True
  then have "fst (preloadWatch s) =
      s\<lparr>preloadCache := fst (foldl (preloadOne (slides s)) (preloadCache s, []) (preload_indices s))\<rparr>"
    by (simp add: preloadWatch_def split_def Let_def)
  then show ?thesis by blast
qed

lemma ui_step: "\<exists>c. ui (step ev w) = (fst (handle ev w))\<lparr>preloadCache := c\<rparr>"
proof (cases "currentIndex (fst (handle ev w)) \<noteq> currentIndex (ui w)")
  case True
  then have "ui (step ev w) = fst (preloadWatch (fst (handle ev w)))"
    by (simp add: step_def split_def Let_def)
  then show ?thesis using preloadWatch_frame by simp
next
  case False
  then have "ui (step ev w) = (fst (handle ev w))\<lparr>preloadCache := preloadCache (fst (handle ev w))\<rparr>"
    by (simp add: step_def split_def Let_def)
  then show ?thesis by blast
qed

subsection \<open>The drag state is reset whenever no pointer is down\<close>

lemma same_drag_refl [simp]: "same_drag s s"
  by (simp add: same_drag_def)

lemma same_drag_inv: "same_drag s t \<Longrightarrow> drag_inv s \<Longrightarrow> drag_inv t"
  by (auto simp: same_drag_def drag_inv_def drag_reset_def)

lemma same_drag_goNext [simp]: "same_drag s (goNext s)"
  by (simp add: same_drag_def goNext_def Let_def)

lemma same_drag_goPrev [simp]: "same_drag s (goPrev s)"
  by (simp add: same_drag_def goPrev_def Let_def)

lemma same_drag_openModal [simp]: "same_drag s (openModal s)"
  by (simp add: same_drag_def openModal_def Let_def)

lemma same_drag_closeModal [simp]: "same_drag s (closeModal s)"
  by (simp add: same_drag_def closeModal_def resetCursorTimer_def Let_def)

lemma same_drag_confirmStart_begin [simp]: "same_drag s (fst (confirmStart_begin s))"
  by (simp add: same_drag_def confirmStart_begin_def)

lemma same_drag_confirmStart_settle [simp]: "same_drag s (fst (confirmStart_settle r s))"
  by (simp add: same_drag_def confirmStart_settle_def confirmStart_try_def split_def
      split: fetch_result.splits sum.splits)

lemma same_drag_finishTransitionIfNeeded [simp]: "same_drag s (finishTransitionIfNeeded s)"
  by (simp add: same_drag_def finishTransitionIfNeeded_def Let_def)

lemma same_drag_handleKeydown [simp]: "same_drag s (fst (handleKeydown e s))"
  by (simp add: handleKeydown_def split: key.splits)

lemma drag_reset_after [simp]: "drag_reset (resetCursorTimer (resetDragState s))"
  by (simp add: drag_reset_def resetCursorTimer_def resetDragState_def Let_def)

lemma handlePointerUp_cases:
  "handlePointerUp e s = s \<and> \<not> isPointerDown s \<or> drag_reset (handlePointerUp e s)"
  by (simp add: handlePointerUp_def Let_def split_def)

lemma handlePointerCancel_cases:
  "handlePointerCancel e s = s \<and> \<not> isPointerDown s \<or> drag_reset (handlePointerCancel e s)"
  by (simp add: handlePointerCancel_def)

lemma handlePointerLeave_cases:
  "handlePointerLeave e s = s \<and> \<not> isPointerDown s \<or> drag_reset (handlePointerLeave e s)"
  using handlePointerUp_cases [of e s] by (auto simp: handlePointerLeave_def)

lemma drag_inv_handlePointerDown: "drag_inv s \<Longrightarrow> drag_inv (handlePointerDown e s)"
  by (simp add: drag_inv_def handlePointerDown_def Let_def)

lemma drag_inv_handlePointerMove: "drag_inv s \<Longrightarrow> drag_inv (handlePointerMove e s)"
  by (simp add: drag_inv_def handlePointerMove_def Let_def)

lemma drag_inv_handle: "drag_inv (ui w) \<Longrightarrow> drag_inv (fst (handle ev w))"
proof (cases ev)
  case (PointerUp e)
  assume "drag_inv (ui w)"
  then show ?thesis using PointerUp handlePointerUp_cases [of e "ui w"]
    by (auto simp: handle_def drag_inv_def Let_def)
next
  case (PointerCancel e)
  assume "drag_inv (ui w)"
  then show ?thesis using PointerCancel handlePointerCancel_cases [of e "ui w"]
    by (auto simp: handle_def drag_inv_def Let_def)
next
  case (PointerLeave e)
  assume "drag_inv (ui w)"
  then show ?thesis using PointerLeave handlePointerLeave_cases [of e "ui w"]
    by (auto simp: handle_def drag_inv_def Let_def)
next
  case (FetchSettled r)
  assume "drag_inv (ui w)"
  then show ?thesis using FetchSettled same_drag_inv [OF same_drag_confirmStart_settle [of "ui w" r]]
    by (simp add: handle_def Let_def)
next
  case (Keydown e)
  assume "drag_inv (ui w)"
  then show ?thesis using Keydown same_drag_inv [OF same_drag_handleKeydown [of "ui w" e]]
    by (simp add: handle_def Let_def)
next
  case ClickConfirm
  assume "drag_inv (ui w)"
  then show ?thesis using ClickConfirm same_drag_inv [OF same_drag_confirmStart_begin [of "ui w"]]
    by (simp add: handle_def Let_def)
next
  case ClickCancel
  assume "drag_inv (ui w)"
  then show ?thesis using ClickCancel same_drag_inv [OF same_drag_closeModal [of "ui w"]]
    by (simp add: handle_def Let_def)
next
  case TransitionEnded
  assume "drag_inv (ui w)"
  then show ?thesis using TransitionEnded same_drag_inv [OF same_drag_finishTransitionIfNeeded [of "ui w"]]
    by (simp add: handle_def Let_def)
next
  case (PointerDown e)
  assume "drag_inv (ui w)"
  then show ?thesis using PointerDown by (simp add: handle_def Let_def drag_inv_handlePointerDown)
next
  case (PointerMove e)
  assume "drag_inv (ui w)"
  then show ?thesis using PointerMove by (simp add: handle_def Let_def drag_inv_handlePointerMove)
qed (simp_all add: handle_def Let_def drag_inv_def drag_reset_def updateBounds_def cursorTimeout_def)

lemma drag_inv_step: "drag_inv (ui w) \<Longrightarrow> drag_inv (ui (step ev w))"
proof -
  assume a: "drag_inv (ui w)"
  obtain c where c: "ui (step ev w) = (fst (handle ev w))\<lparr>preloadCache := c\<rparr>"
    using ui_step by blast
  from drag_inv_handle [OF a, of ev] show ?thesis
    unfolding c by (simp add: drag_inv_def drag_reset_def)
qed

lemma drag_inv_run: "drag_inv (ui w) \<Longrightarrow> drag_inv (ui (run evs w))"
  by (induction evs arbitrary: w) (simp_all add: drag_inv_step)

lemma ui_mounted:
  "\<exists>c. ui (mounted ps cw) = resetCursorTimer ((setup_state ps)\<lparr>allowTransition := False, containerWidth := cw, preloadCache := c\<rparr>)"
proof -
  let ?s1 = "(setup_state ps)\<lparr>allowTransition := False, trackPosition := 0, currentIndex := 0,
                  dragOffset := 0, isAnimating := False\<rparr>"
  obtain c where c: "fst (preloadWatch ?s1) = ?s1\<lparr>preloadCache := c\<rparr>"
    using preloadWatch_frame by blast
  have "ui (mounted ps cw) = resetCursorTimer (updateBounds cw (fst (preloadWatch ?s1)))"
    by (simp add: mounted_def Let_def split_def)
  then have "ui (mounted ps cw) = resetCursorTimer ((setup_state ps)\<lparr>allowTransition := False, containerWidth := cw, preloadCache := c\<rparr>)"
    unfolding c by (simp add: updateBounds_def setup_state_def)
  then show ?thesis by blast
qed

lemma drag_inv_mounted: "drag_inv (ui (mounted ps cw))"
proof -
  obtain c where "ui (mounted ps cw) = resetCursorTimer ((setup_state ps)\<lparr>allowTransition := False, containerWidth := cw, preloadCache := c\<rparr>)"
    using ui_mounted by blast
  then show ?thesis
    by (simp add: drag_inv_def drag_reset_def resetCursorTimer_def setup_state_def Let_def)
qed

text \<open>
  Claim C10. In every state the component reaches from mounting, whatever events came
  before: after \<open>handlePointerUp\<close>, \<open>handlePointerCancel\<close> or \<open>handlePointerLeave\<close> the
  drag offset is 0, the dragging flag and the pointer-down flag are false and the stored
  pointer id is \<open>null\<close>; and whenever no pointer is down the drag offset is 0.
\<close>

theorem drag_state_reset_after_release:
  "drag_reset (handlePointerUp e (ui (run evs (mounted promoSlides clientWidth))))
   \<and> drag_reset (handlePointerCancel e (ui (run evs (mounted promoSlides clientWidth))))
   \<and> drag_reset (handlePointerLeave e (ui (run evs (mounted promoSlides clientWidth))))
   \<and> (\<not> isPointerDown (ui (run evs (mounted promoSlides clientWidth)))
        \<longrightarrow> dragOffset (ui (run evs (mounted promoSlides clientWidth))) = 0)"
proof -
  let ?s = "ui (run evs (mounted promoSlides clientWidth))"
  have inv: "drag_inv ?s"
    by (simp add: drag_inv_run drag_inv_mounted)
  have up: "drag_reset (handlePointerUp e ?s)"
    using inv handlePointerUp_cases [of e ?s] by (auto simp: drag_inv_def)
  have cancel: "drag_reset (handlePointerCancel e ?s)"
    using inv handlePointerCancel_cases [of e ?s] by (auto simp: drag_inv_def)
  have leave: "drag_reset (handlePointerLeave e ?s)"
    using inv handlePointerLeave_cases [of e ?s] by (auto simp: drag_inv_def)
  from inv have "\<not> isPointerDown ?s \<longrightarrow> dragOffset ?s = 0"
    by (auto simp: drag_inv_def drag_reset_def)
  with up cancel leave show ?thesis by blast
qed

theorem drag_state_reset_after_release_witness:
  "\<not> isPointerDown (ui (run drag_left_gesture (mounted example_promos 600)))
   \<and> dragOffset (ui (run drag_left_gesture (mounted example_promos 600))) = 0
   \<and> drag_reset (handlePointerUp \<lparr>clientX = 5, eventPointerId = 1\<rparr>
        (ui (run drag_left_gesture (mounted example_promos 600))))"
proof -
  have h: "\<not> isPointerDown (ui (run drag_left_gesture (mounted example_promos 600)))"
    by code_simp
  show ?thesis
    using h drag_state_reset_after_release [of "\<lparr>clientX = 5, eventPointerId = 1\<rparr>"
        drag_left_gesture example_promos 600]
    by blast
qed

subsection \<open>The busy flag guards the session-start request\<close>

lemma busy_resetCursorTimer [simp]: "isStartingSession (resetCursorTimer s) = isStartingSession s"
  by (simp add: resetCursorTimer_def Let_def)

lemma busy_resetDragState [simp]: "isStartingSession (resetDragState s) = isStartingSession s"
  by (simp add: resetDragState_def)

lemma busy_openModal [simp]: "isStartingSession (openModal s) = isStartingSession s"
  by (simp add: openModal_def Let_def)

lemma busy_closeModal [simp]: "isStartingSession (closeModal s) = isStartingSession s"
  by (simp add: closeModal_def)

lemma busy_goNext [simp]: "isStartingSession (goNext s) = isStartingSession s"
  by (simp add: goNext_def Let_def)

lemma busy_goPrev [simp]: "isStartingSession (goPrev s) = isStartingSession s"
  by (simp add: goPrev_def Let_def)

lemma busy_finishTransitionIfNeeded [simp]:
  "isStartingSession (finishTransitionIfNeeded s) = isStartingSession s"
  by (simp add: finishTransitionIfNeeded_def Let_def)

lemma busy_triggerNavigationForDrag [simp]:
  "isStartingSession (snd (triggerNavigationForDrag d s)) = isStartingSession s"
  by (simp add: triggerNavigationForDrag_def Let_def)

lemma busy_handlePointerDown [simp]: "isStartingSession (handlePointerDown e s) = isStartingSession s"
  by (simp add: handlePointerDown_def Let_def)

lemma busy_handlePointerMove [simp]: "isStartingSession (handlePointerMove e s) = isStartingSession s"
  by (simp add: handlePointerMove_def Let_def)

lemma busy_handlePointerUp [simp]: "isStartingSession (handlePointerUp e s) = isStartingSession s"
  by (simp add: handlePointerUp_def Let_def split_def)

lemma busy_handlePointerCancel [simp]: "isStartingSession (handlePointerCancel e s) = isStartingSession s"
  by (simp add: handlePointerCancel_def)

lemma busy_handlePointerLeave [simp]: "isStartingSession (handlePointerLeave e s) = isStartingSession s"
  by (simp add: handlePointerLeave_def)

lemma confirmStart_begin_busy:
  "isStartingSession (fst (confirmStart_begin s))
   \<and> count_fetches (snd (confirmStart_begin s)) = (if isStartingSession s then 0 else 1)"
  by (simp add: confirmStart_begin_def count_fetches_def)

lemma confirmStart_settle_busy:
  "\<not> isStartingSession (fst (confirmStart_settle r s))
   \<and> count_fetches (snd (confirmStart_settle r s)) = 0"
  by (simp add: confirmStart_settle_def confirmStart_try_def count_fetches_def split_def
      split: fetch_result.splits sum.splits)

lemma handleKeydown_busy:
  "(isStartingSession (fst (handleKeydown e s)) = isStartingSession s
      \<and> count_fetches (snd (handleKeydown e s)) = 0)
   \<or> (\<not> isStartingSession s \<and> isStartingSession (fst (handleKeydown e s))
      \<and> count_fetches (snd (handleKeydown e s)) = 1)"
  using confirmStart_begin_busy [of s]
  by (auto simp: handleKeydown_def count_fetches_def split: key.splits)

lemma busy_step:
  "ui (step ev w) = s' \<Longrightarrow> isStartingSession s' = isStartingSession (fst (handle ev w))"
  using ui_step [of ev w] by auto

lemma inflight_step:
  "inflight (step ev w) =
     inflight w - (case ev of FetchSettled r \<Rightarrow> (if inflight w = 0 then 0 else 1) | _ \<Rightarrow> 0)
       + count_fetches (snd (handle ev w))"
proof (cases "currentIndex (fst (handle ev w)) \<noteq> currentIndex (ui w)")
  case True
  then show ?thesis
    using preloadWatch_no_fetch [of "fst (handle ev w)"]
    by (simp add: step_def split_def Let_def count_fetches_def)
next
  case False
  then show ?thesis
    by (simp add: step_def split_def Let_def count_fetches_def)
qed

lemma busy_inv_step: "busy_inv w \<Longrightarrow> busy_inv (step ev w)"
proof -
  assume a: "busy_inv w"
  have b: "isStartingSession (ui (step ev w)) = isStartingSession (fst (handle ev w))"
    using busy_step by blast
  show ?thesis
  proof (cases ev)
    case (Keydown e)
    then show ?thesis using a b handleKeydown_busy [of e "ui w"]
      by (auto simp: busy_inv_def inflight_step handle_def Let_def)
  next
    case ClickConfirm
    then show ?thesis using a b confirmStart_begin_busy [of "ui w"]
      by (auto simp: busy_inv_def inflight_step handle_def Let_def)
  next
    case (FetchSettled r)
    then show ?thesis using a b confirmStart_settle_busy [of r "ui w"]
      by (auto simp: busy_inv_def inflight_step handle_def Let_def count_fetches_def split: if_splits)
  qed (use a b in \<open>simp_all add: busy_inv_def inflight_step handle_def Let_def count_fetches_def
         updateBounds_def cursorTimeout_def closeModal_def\<close>)
qed

lemma busy_inv_run: "busy_inv w \<Longrightarrow> busy_inv (run evs w)"
  by (induction evs arbitrary: w) (simp_all add: busy_inv_step)

lemma busy_inv_mounted: "busy_inv (mounted ps cw)"
proof -
  obtain c where "ui (mounted ps cw) = resetCursorTimer ((setup_state ps)\<lparr>allowTransition := False, containerWidth := cw, preloadCache := c\<rparr>)"
    using ui_mounted by blast
  moreover have "inflight (mounted ps cw) = 0"
    by (simp add: mounted_def Let_def split_def)
  ultimately show ?thesis
    by (simp add: busy_inv_def setup_state_def)
qed

lemma step_noop:
  "handle ev w = (ui w, []) \<Longrightarrow> (\<And>r. ev \<noteq> FetchSettled r) \<Longrightarrow> step ev w = w"
  by (cases ev) (auto simp: step_def count_fetches_def)

lemma handleKeydown_Enter_busy:
  "isStartingSession s \<Longrightarrow> isModalOpen s \<Longrightarrow>
   handleKeydown \<lparr>key = Enter, repeat = rp\<rparr> s = (s, [])"
  by (simp add: handleKeydown_def confirmStart_begin_def)

lemma handleKeydown_Escape_busy:
  "isStartingSession s \<Longrightarrow> handleKeydown \<lparr>key = Escape, repeat = rp\<rparr> s = (s, [])"
  by (simp add: handleKeydown_def closeModal_def)

lemma step_ClickConfirm_busy: "isStartingSession (ui w) \<Longrightarrow> step ClickConfirm w = w"
  by (rule step_noop) (simp_all add: handle_def confirmStart_begin_def)

lemma step_Enter_busy:
  "isStartingSession (ui w) \<Longrightarrow> isModalOpen (ui w) \<Longrightarrow>
   step (Keydown \<lparr>key = Enter, repeat = rp\<rparr>) w = w"
  by (rule step_noop) (simp_all add: handle_def handleKeydown_Enter_busy)

text \<open>
  Claim C6. While \<open>isStartingSession\<close> is set, \<open>confirmStart\<close> returns the state it was given
  and issues no request; a click on the confirm button or the Enter key (modal open) leaves
  the whole machine as it is. In every state reached from mounting at most one
  session-start request is in flight, and one is in flight exactly when the flag is set.
\<close>

theorem confirm_while_busy_ignored:
  "(isStartingSession s \<longrightarrow> confirmStart_begin s = (s, []))
   \<and> (isStartingSession (ui w) \<longrightarrow> step ClickConfirm w = w)
   \<and> (isStartingSession (ui w) \<and> isModalOpen (ui w)
        \<longrightarrow> step (Keydown \<lparr>key = Enter, repeat = rp\<rparr>) w = w)
   \<and> inflight (run evs (mounted promoSlides clientWidth)) \<le> 1
   \<and> (inflight (run evs (mounted promoSlides clientWidth)) = 1
        \<longleftrightarrow> isStartingSession (ui (run evs (mounted promoSlides clientWidth))))"
proof -
  have "busy_inv (run evs (mounted promoSlides clientWidth))"
    by (simp add: busy_inv_run busy_inv_mounted)
  then have "inflight (run evs (mounted promoSlides clientWidth)) \<le> 1
     \<and> (inflight (run evs (mounted promoSlides clientWidth)) = 1
        \<longleftrightarrow> isStartingSession (ui (run evs (mounted promoSlides clientWidth))))"
    by (simp add: busy_inv_def)
  moreover have "isStartingSession s \<longrightarrow> confirmStart_begin s = (s, [])"
    by (simp add: confirmStart_begin_def)
  ultimately show ?thesis
    using step_ClickConfirm_busy step_Enter_busy by blast
qed

theorem confirm_while_busy_ignored_witness:
  "isStartingSession (ui (run confirm_pressed (mounted example_promos 600)))
   \<and> isModalOpen (ui (run confirm_pressed (mounted example_promos 600)))
   \<and> confirmStart_begin (ui (run confirm_pressed (mounted example_promos 600)))
       = (ui (run confirm_pressed (mounted example_promos 600)), [])
   \<and> step ClickConfirm (run confirm_pressed (mounted example_promos 600))
       = run confirm_pressed (mounted example_promos 600)
   \<and> step (Keydown \<lparr>key = Enter, repeat = False\<rparr>) (run confirm_pressed (mounted example_promos 600))
       = run confirm_pressed (mounted example_promos 600)
   \<and> inflight (run confirm_pressed (mounted example_promos 600)) = 1"
proof -
  have busy: "isStartingSession (ui (run confirm_pressed (mounted example_promos 600)))"
    by code_simp
  have opened: "isModalOpen (ui (run confirm_pressed (mounted example_promos 600)))"
    by code_simp
  show ?thesis
    using busy opened
      confirm_while_busy_ignored [of "ui (run confirm_pressed (mounted example_promos 600))"
        "run confirm_pressed (mounted example_promos 600)" False confirm_pressed example_promos 600]
    by blast
qed

subsection \<open>The modal cannot be dismissed while the request is in flight\<close>

lemma closeModal_busy: "isStartingSession s \<Longrightarrow> closeModal s = s"
  by (simp add: closeModal_def)

lemma step_ClickCancel_busy: "isStartingSession (ui w) \<Longrightarrow> step ClickCancel w = w"
  by (rule step_noop) (simp_all add: handle_def closeModal_def)

lemma step_Escape_busy:
  "isStartingSession (ui w) \<Longrightarrow> step (Keydown \<lparr>key = Escape, repeat = rp\<rparr>) w = w"
  by (rule step_noop) (simp_all add: handle_def handleKeydown_Escape_busy)

lemma modal_resetCursorTimer [simp]: "isModalOpen (resetCursorTimer s) = isModalOpen s"
  by (simp add: resetCursorTimer_def Let_def)

lemma modal_resetDragState [simp]: "isModalOpen (resetDragState s) = isModalOpen s"
  by (simp add: resetDragState_def)

lemma modal_openModal [simp]: "isModalOpen (openModal s)"
  by (simp add: openModal_def Let_def)

lemma modal_goNext [simp]: "isModalOpen (goNext s) = isModalOpen s"
  by (simp add: goNext_def Let_def)

lemma modal_goPrev [simp]: "isModalOpen (goPrev s) = isModalOpen s"
  by (simp add: goPrev_def Let_def)

lemma modal_finishTransitionIfNeeded [simp]:
  "isModalOpen (finishTransitionIfNeeded s) = isModalOpen s"
  by (simp add: finishTransitionIfNeeded_def Let_def)

lemma modal_triggerNavigationForDrag [simp]:
  "isModalOpen (snd (triggerNavigationForDrag d s)) = isModalOpen s"
  by (simp add: triggerNavigationForDrag_def Let_def)

lemma modal_handlePointerDown: "isModalOpen s \<Longrightarrow> handlePointerDown e s = s"
  by (simp add: handlePointerDown_def)

lemma modal_handlePointerMove: "isModalOpen s \<Longrightarrow> handlePointerMove e s = s"
  by (simp add: handlePointerMove_def)

lemma modal_handlePointerUp: "isModalOpen s \<Longrightarrow> isModalOpen (handlePointerUp e s)"
  by (simp add: handlePointerUp_def Let_def split_def)

lemma modal_handlePointerCancel [simp]: "isModalOpen (handlePointerCancel e s) = isModalOpen s"
  by (simp add: handlePointerCancel_def)

lemma modal_handlePointerLeave: "isModalOpen s \<Longrightarrow> isModalOpen (handlePointerLeave e s)"
  by (simp add: handlePointerLeave_def modal_handlePointerUp)

lemma modal_confirmStart_begin [simp]: "isModalOpen (fst (confirmStart_begin s)) = isModalOpen s"
  by (simp add: confirmStart_begin_def)

lemma modal_handleKeydown:
  "isStartingSession s \<Longrightarrow> isModalOpen s \<Longrightarrow> isModalOpen (fst (handleKeydown e s))"
  by (simp add: handleKeydown_def closeModal_busy split: key.splits)

lemma busy_confirmStart_begin: "isStartingSession s \<Longrightarrow> isStartingSession (fst (confirmStart_begin s))"
  by (simp add: confirmStart_begin_def)

lemma busy_handleKeydown:
  "isStartingSession s \<Longrightarrow> isStartingSession (fst (handleKeydown e s))"
  by (simp add: handleKeydown_def busy_confirmStart_begin split: key.splits)

lemma modal_stays_open_handle:
  assumes "isStartingSession (ui w)" and "isModalOpen (ui w)" and "\<And>r. ev \<noteq> FetchSettled r"
  shows "isModalOpen (fst (handle ev w)) \<and> isStartingSession (fst (handle ev w))"
proof (cases ev)
  case (FetchSettled r)
  with assms(3) show ?thesis by blast
qed (use assms(1,2) in \<open>simp_all add: handle_def Let_def modal_handlePointerDown
      modal_handlePointerMove modal_handlePointerUp modal_handlePointerLeave modal_handleKeydown
      busy_handleKeydown closeModal_busy busy_confirmStart_begin updateBounds_def
      cursorTimeout_def\<close>)

lemma modal_stays_open_step:
  assumes "isStartingSession (ui w)" and "isModalOpen (ui w)" and "\<And>r. ev \<noteq> FetchSettled r"
  shows "isModalOpen (ui (step ev w)) \<and> isStartingSession (ui (step ev w))"
proof -
  obtain c where c: "ui (step ev w) = (fst (handle ev w))\<lparr>preloadCache := c\<rparr>"
    using ui_step by blast
  show ?thesis
    using modal_stays_open_handle [OF assms] unfolding c by simp
qed

text \<open>
  Claim C8. While \<open>isStartingSession\<close> is set, \<open>closeModal\<close> returns the state it was
  given: the modal stays as it is, and so do the error text and every other field. The
  cancel button and the Escape key leave the whole machine as it is. With the modal open
  and the flag set, no event other than the settling of the request closes the modal or
  clears the flag.
\<close>

theorem close_while_busy_ignored:
  "(isStartingSession s \<longrightarrow>
      closeModal s = s \<and> handleKeydown \<lparr>key = Escape, repeat = rp\<rparr> s = (s, []))
   \<and> (isStartingSession (ui w) \<longrightarrow>
      step ClickCancel w = w \<and> step (Keydown \<lparr>key = Escape, repeat = rp\<rparr>) w = w)
   \<and> (isStartingSession (ui w) \<and> isModalOpen (ui w) \<and> (\<forall>r. ev \<noteq> FetchSettled r) \<longrightarrow>
      isModalOpen (ui (step ev w)) \<and> isStartingSession (ui (step ev w)))"
  using closeModal_busy handleKeydown_Escape_busy step_ClickCancel_busy step_Escape_busy
    modal_stays_open_step [of w ev]
  by blast

theorem close_while_busy_ignored_witness:
  "isStartingSession (ui (run confirm_pressed (mounted example_promos 600)))
   \<and> isModalOpen (ui (run confirm_pressed (mounted example_promos 600)))
   \<and> closeModal (ui (run confirm_pressed (mounted example_promos 600)))
       = ui (run confirm_pressed (mounted example_promos 600))
   \<and> step ClickCancel (run confirm_pressed (mounted example_promos 600))
       = run confirm_pressed (mounted example_promos 600)
   \<and> step (Keydown \<lparr>key = Escape, repeat = False\<rparr>) (run confirm_pressed (mounted example_promos 600))
       = run confirm_pressed (mounted example_promos 600)
   \<and> isModalOpen (ui (step (PointerUp \<lparr>clientX = 10, eventPointerId = 1\<rparr>)
        (run confirm_pressed (mounted example_promos 600))))"
proof -
  have busy: "isStartingSession (ui (run confirm_pressed (mounted example_promos 600)))"
    by code_simp
  have opened: "isModalOpen (ui (run confirm_pressed (mounted example_promos 600)))"
    by code_simp
  have other: "\<forall>r. PointerUp \<lparr>clientX = 10, eventPointerId = 1\<rparr> \<noteq> FetchSettled r"
    by simp
  show ?thesis
    using busy opened other
      close_while_busy_ignored [of "ui (run confirm_pressed (mounted example_promos 600))" False
        "run confirm_pressed (mounted example_promos 600)"
        "PointerUp \<lparr>clientX = 10, eventPointerId = 1\<rparr>"]
    by blast
qed

subsection \<open>Rounded differences\<close>

text \<open>
  The doubles nearest to 0.7 and 20.7 differ by a little less than 20, and their
  difference as doubles is exactly \<open>-20\<close>. In a container 80 pixels wide (threshold 20), a
  press at 20.7 that moves to 79 and is released at 0.7 therefore reaches the threshold:
  the release navigates and the modal stays closed.
\<close>

lemma js_sub_rounds:
  "to_double 0.7 - to_double 20.7 \<noteq> - 20
   \<and> js_sub (to_double 0.7) (to_double 20.7) = - 20
   \<and> js_sub 300 100 = 200
   \<and> to_double 0.1 = 3602879701896397 / 36028797018963968"
  by code_simp

lemma rounded_release_navigates:
  "pointerThreshold (ui (run fractional_press (mounted example_promos 80))) = 20
   \<and> \<bar>js_sub (clientX (release_position (to_double 0.7)))
        (dragStartX (ui (run fractional_press (mounted example_promos 80))))\<bar> = 20
   \<and> currentIndex (ui (run fractional_press (mounted example_promos 80))) = 0
   \<and> currentIndex (handlePointerUp (release_position (to_double 0.7))
        (ui (run fractional_press (mounted example_promos 80)))) = 1
   \<and> \<not> isModalOpen (handlePointerUp (release_position (to_double 0.7))
        (ui (run fractional_press (mounted example_promos 80))))"
  by code_simp

subsection \<open>Releasing a drag past the threshold\<close>

lemma dragging_goNext [simp]: "isDragging (goNext s) = isDragging s"
  by (simp add: goNext_def Let_def)

lemma dragging_goPrev [simp]: "isDragging (goPrev s) = isDragging s"
  by (simp add: goPrev_def Let_def)

lemma index_resetCursorTimer [simp]: "currentIndex (resetCursorTimer s) = currentIndex s"
  by (simp add: resetCursorTimer_def Let_def)

lemma index_resetDragState [simp]: "currentIndex (resetDragState s) = currentIndex s"
  by (simp add: resetDragState_def)

lemma two_slides_are_real: "2 \<le> totalSlides s \<Longrightarrow> hasRealSlides s"
  by (simp add: totalSlides_def slides_def split: if_splits)

lemma handlePointerUp_navigates:
  assumes "isPointerDown s" and "isDragging s" and "2 \<le> totalSlides s"
    and "pointerThreshold s \<le> \<bar>js_sub (clientX e) (dragStartX s)\<bar>"
  shows "handlePointerUp e s =
     resetCursorTimer (resetDragState
       (if js_sub (clientX e) (dragStartX s) < 0 then goNext s else goPrev s))"
  using assms two_slides_are_real [OF assms(3)]
  by (simp add: handlePointerUp_def triggerNavigationForDrag_def Let_def)

lemma goNext_index_exact:
  "2 \<le> totalSlides s \<Longrightarrow>
   currentIndex (goNext s) =
     (if \<not> isAnimating s \<and> currentIndex s < totalSlides s - 1 then currentIndex s + 1
      else currentIndex s)"
  using two_slides_are_real [of s] by (simp add: goNext_def Let_def)

lemma goPrev_index_exact:
  "2 \<le> totalSlides s \<Longrightarrow>
   currentIndex (goPrev s) =
     (if \<not> isAnimating s \<and> 0 < currentIndex s then currentIndex s - 1 else currentIndex s)"
  using two_slides_are_real [of s] by (simp add: goPrev_def Let_def)

lemma pointerThreshold_eq:
  "pointerThreshold s = (if containerWidth s = 0 then 160 else min 160 (containerWidth s / 4))"
  by (simp add: pointerThreshold_def Let_def)

text \<open>
  Claim C2, as the code has it. The displacement is \<open>deltaX\<close>, the difference of the two
  coordinates as the handler computes it. When a pointer is released while dragging is
  engaged, at least two slides exist and the displacement magnitude has reached
  \<open>pointerThreshold\<close> (the lesser of 160 and a quarter of the container width; 160 when the
  width is 0), \<open>handlePointerUp\<close> calls \<open>goNext\<close> once for a negative displacement and
  \<open>goPrev\<close> once otherwise, and leaves the modal as it was. The index moves one step in
  that direction unless an animation is in progress or the index is already at that end;
  then it keeps its value.
\<close>

theorem drag_past_threshold_navigates:
  assumes "isPointerDown s" and "isDragging s" and "2 \<le> totalSlides s"
    and "pointerThreshold s \<le> \<bar>js_sub (clientX e) (dragStartX s)\<bar>"
  shows "pointerThreshold s = (if containerWidth s = 0 then 160 else min 160 (containerWidth s / 4))
     \<and> handlePointerUp e s =
           resetCursorTimer (resetDragState
             (if js_sub (clientX e) (dragStartX s) < 0 then goNext s else goPrev s))
     \<and> isModalOpen (handlePointerUp e s) = isModalOpen s
     \<and> currentIndex (handlePointerUp e s) =
          (if js_sub (clientX e) (dragStartX s) < 0
           then (if \<not> isAnimating s \<and> currentIndex s < totalSlides s - 1
                 then currentIndex s + 1 else currentIndex s)
           else (if \<not> isAnimating s \<and> 0 < currentIndex s
                 then currentIndex s - 1 else currentIndex s))"
proof -
  note up = handlePointerUp_navigates [OF assms]
  have "isModalOpen (handlePointerUp e s) = isModalOpen s
     \<and> currentIndex (handlePointerUp e s) =
          (if js_sub (clientX e) (dragStartX s) < 0
           then (if \<not> isAnimating s \<and> currentIndex s < totalSlides s - 1
                 then currentIndex s + 1 else currentIndex s)
           else (if \<not> isAnimating s \<and> 0 < currentIndex s
                 then currentIndex s - 1 else currentIndex s))"
    unfolding up using assms(3)
    by (simp add: goNext_index_exact goPrev_index_exact)
  with up pointerThreshold_eq show ?thesis by blast
qed

theorem drag_past_threshold_navigates_witness:
  "isPointerDown (ui (run (AnimationFrame # press_and_drag_left) (mounted example_promos 600)))
   \<and> isDragging (ui (run (AnimationFrame # press_and_drag_left) (mounted example_promos 600)))
   \<and> pointerThreshold (ui (run (AnimationFrame # press_and_drag_left) (mounted example_promos 600))) = 150
   \<and> currentIndex (ui (run (AnimationFrame # press_and_drag_left) (mounted example_promos 600))) = 0
   \<and> currentIndex (handlePointerUp (release_position 100)
        (ui (run (AnimationFrame # press_and_drag_left) (mounted example_promos 600)))) = 1
   \<and> \<not> isModalOpen (handlePointerUp (release_position 100)
        (ui (run (AnimationFrame # press_and_drag_left) (mounted example_promos 600))))"
proof -
  let ?s = "ui (run (AnimationFrame # press_and_drag_left) (mounted example_promos 600))"
  have h1: "isPointerDown ?s" by code_simp
  have h2: "isDragging ?s" by code_simp
  have h3: "2 \<le> totalSlides ?s" by code_simp
  have h4: "pointerThreshold ?s \<le> \<bar>js_sub (clientX (release_position 100)) (dragStartX ?s)\<bar>"
    by code_simp
  have v1: "(if containerWidth ?s = 0 then 160 else min 160 (containerWidth ?s / 4)) = 150"
    by code_simp
  have v2: "currentIndex ?s = 0" by code_simp
  have v3: "(if js_sub (clientX (release_position 100)) (dragStartX ?s) < 0
           then (if \<not> isAnimating ?s \<and> currentIndex ?s < totalSlides ?s - 1
                 then currentIndex ?s + 1 else currentIndex ?s)
           else (if \<not> isAnimating ?s \<and> 0 < currentIndex ?s
                 then currentIndex ?s - 1 else currentIndex ?s)) = 1" by code_simp
  have v4: "\<not> isModalOpen ?s" by code_simp
  show ?thesis
    using h1 h2 v2 v4 drag_past_threshold_navigates [OF h1 h2 h3 h4]
    unfolding v1 v3 by blast
qed

text \<open>
  The claim as worded fails on the code. At the last of five slides a released drag of
  \<open>-200\<close> pixels (threshold 150) leaves the index at 4. A press released 200 pixels away
  with no pointer-move in between never engaged dragging: it does not navigate and opens
  the modal.
\<close>

theorem drag_past_threshold_counterexample:
  "totalSlides (ui (run (at_last_slide @ press_and_drag_left) (mounted example_promos 600))) = 5
   \<and> currentIndex (ui (run (at_last_slide @ press_and_drag_left) (mounted example_promos 600))) = 4
   \<and> isPointerDown (ui (run (at_last_slide @ press_and_drag_left) (mounted example_promos 600)))
   \<and> js_sub (clientX (release_position 100))
        (dragStartX (ui (run (at_last_slide @ press_and_drag_left) (mounted example_promos 600)))) = - 200
   \<and> min 160 (containerWidth (ui (run (at_last_slide @ press_and_drag_left) (mounted example_promos 600))) * 0.25) = 150
   \<and> currentIndex (handlePointerUp (release_position 100)
        (ui (run (at_last_slide @ press_and_drag_left) (mounted example_promos 600)))) = 4
   \<and> isPointerDown (ui (run press_only (mounted example_promos 600)))
   \<and> \<not> isModalOpen (ui (run press_only (mounted example_promos 600)))
   \<and> js_sub (clientX (release_position 100))
        (dragStartX (ui (run press_only (mounted example_promos 600)))) = - 200
   \<and> currentIndex (ui (run press_only (mounted example_promos 600))) = 0
   \<and> currentIndex (handlePointerUp (release_position 100)
        (ui (run press_only (mounted example_promos 600)))) = 0
   \<and> isModalOpen (handlePointerUp (release_position 100)
        (ui (run press_only (mounted example_promos 600))))"
  by code_simp
subsection \<open>Releasing a tap\<close>

lemma openModal_fields:
  "currentIndex (openModal s) = currentIndex s \<and> trackPosition (openModal s) = trackPosition s
   \<and> isAnimating (openModal s) = isAnimating s
   \<and> modalError (openModal s) = (if isModalOpen s then modalError s else '''')"
  by (simp add: openModal_def Let_def)

lemma handlePointerUp_tap:
  assumes "isPointerDown s"
    and "\<not> isDragging s
         \<or> (\<bar>js_sub (clientX e) (dragStartX s)\<bar> \<le> 20
            \<and> (totalSlides s \<le> 1 \<or> \<bar>js_sub (clientX e) (dragStartX s)\<bar> < pointerThreshold s))"
  shows "handlePointerUp e s =
     resetCursorTimer (resetDragState (openModal
       (if isDragging s then s\<lparr>allowTransition := True, dragOffset := 0\<rparr> else s)))"
  using assms
  by (auto simp: handlePointerUp_def triggerNavigationForDrag_def Let_def openModal_def)

lemma after_release_fields:
  "isModalOpen (resetCursorTimer (resetDragState t)) = isModalOpen t
   \<and> modalError (resetCursorTimer (resetDragState t)) = modalError t
   \<and> currentIndex (resetCursorTimer (resetDragState t)) = currentIndex t
   \<and> trackPosition (resetCursorTimer (resetDragState t)) = trackPosition t
   \<and> isAnimating (resetCursorTimer (resetDragState t)) = isAnimating t
   \<and> allowTransition (resetCursorTimer (resetDragState t)) = allowTransition t"
  by (simp add: resetCursorTimer_def resetDragState_def Let_def)

text \<open>
  Claim C3, as the code has it. The displacement is \<open>deltaX\<close>, the difference of the two
  coordinates as the handler computes it, rounded as doubles are. When a pointer is
  released with a displacement of at most 20 pixels, and the release is not a navigation (dragging was not engaged, or fewer than
  two slides exist, or the displacement is below \<open>pointerThreshold\<close>, which is above
  20 when the container is wider than 80 pixels or its width is 0), \<open>handlePointerUp\<close> calls
  \<open>openModal\<close> once: the modal is open afterwards, its error text is cleared unless it was
  open already, and the index, the track position and the animating flag keep their values.
\<close>

theorem tap_opens_modal:
  assumes "isPointerDown s" and "\<bar>js_sub (clientX e) (dragStartX s)\<bar> \<le> 20"
    and "\<not> isDragging s \<or> totalSlides s \<le> 1
         \<or> \<bar>js_sub (clientX e) (dragStartX s)\<bar> < pointerThreshold s"
  shows "handlePointerUp e s =
           resetCursorTimer (resetDragState (openModal
             (if isDragging s then s\<lparr>allowTransition := True, dragOffset := 0\<rparr> else s)))
     \<and> isModalOpen (handlePointerUp e s)
     \<and> modalError (handlePointerUp e s) = (if isModalOpen s then modalError s else '''')
     \<and> currentIndex (handlePointerUp e s) = currentIndex s
     \<and> trackPosition (handlePointerUp e s) = trackPosition s
     \<and> isAnimating (handlePointerUp e s) = isAnimating s
     \<and> (containerWidth s = 0 \<or> 80 < containerWidth s \<longrightarrow> 20 < pointerThreshold s)"
proof -
  have wide: "containerWidth s = 0 \<or> 80 < containerWidth s \<longrightarrow> 20 < pointerThreshold s"
    by (auto simp: pointerThreshold_eq)
  have up: "handlePointerUp e s =
     resetCursorTimer (resetDragState (openModal
       (if isDragging s then s\<lparr>allowTransition := True, dragOffset := 0\<rparr> else s)))"
    using assms by (intro handlePointerUp_tap) auto
  show ?thesis
    unfolding up using wide
    by (simp add: after_release_fields openModal_fields modal_openModal)
qed

theorem tap_opens_modal_witness:
  "isPointerDown (ui (run press_and_wiggle (mounted example_promos 600)))
   \<and> isDragging (ui (run press_and_wiggle (mounted example_promos 600)))
   \<and> \<bar>js_sub (clientX (release_position 90))
        (dragStartX (ui (run press_and_wiggle (mounted example_promos 600))))\<bar> \<le> 20
   \<and> \<bar>js_sub (clientX (release_position 90))
        (dragStartX (ui (run press_and_wiggle (mounted example_promos 600))))\<bar>
       < pointerThreshold (ui (run press_and_wiggle (mounted example_promos 600)))
   \<and> isModalOpen (handlePointerUp (release_position 90)
        (ui (run press_and_wiggle (mounted example_promos 600))))
   \<and> currentIndex (handlePointerUp (release_position 90)
        (ui (run press_and_wiggle (mounted example_promos 600))))
       = currentIndex (ui (run press_and_wiggle (mounted example_promos 600)))"
proof -
  let ?s = "ui (run press_and_wiggle (mounted example_promos 600))"
  have h1: "isPointerDown ?s" by code_simp
  have h2: "\<bar>js_sub (clientX (release_position 90)) (dragStartX ?s)\<bar> \<le> 20" by code_simp
  have h3: "\<bar>js_sub (clientX (release_position 90)) (dragStartX ?s)\<bar> < pointerThreshold ?s"
    by code_simp
  have h4: "isDragging ?s" by code_simp
  from h3 have h3': "\<not> isDragging ?s \<or> totalSlides ?s \<le> 1
         \<or> \<bar>js_sub (clientX (release_position 90)) (dragStartX ?s)\<bar> < pointerThreshold ?s"
    by blast
  show ?thesis
    using h1 h2 h3 h4 tap_opens_modal [OF h1 h2 h3'] by blast
qed

text \<open>
  The claim as worded fails on the code. In a container 40 pixels wide the navigation
  threshold is 10 pixels. A press at \<open>x = 100\<close> that moves to \<open>x = 70\<close> engages dragging;
  released at \<open>x = 85\<close>, 15 pixels from the start, it navigates to the next slide and the
  modal stays closed.
\<close>

theorem tap_opens_modal_counterexample:
  "isPointerDown (ui (run press_and_wiggle (mounted example_promos 40)))
   \<and> \<bar>js_sub (clientX (release_position 85))
        (dragStartX (ui (run press_and_wiggle (mounted example_promos 40))))\<bar> = 15
   \<and> \<not> isModalOpen (ui (run press_and_wiggle (mounted example_promos 40)))
   \<and> currentIndex (ui (run press_and_wiggle (mounted example_promos 40))) = 0
   \<and> \<not> isModalOpen (handlePointerUp (release_position 85)
        (ui (run press_and_wiggle (mounted example_promos 40))))
   \<and> currentIndex (handlePointerUp (release_position 85)
        (ui (run press_and_wiggle (mounted example_promos 40)))) = 1"
  by code_simp
subsection \<open>Pointer-cancel and pointer-leave\<close>

lemma handlePointerCancel_down:
  "isPointerDown s \<Longrightarrow>
   handlePointerCancel e s =
     resetCursorTimer (resetDragState (s\<lparr>allowTransition := True, dragOffset := 0\<rparr>))"
  by (simp add: handlePointerCancel_def)

lemma handlePointerLeave_is_up: "handlePointerLeave e s = handlePointerUp e s"
  by (simp add: handlePointerLeave_def handlePointerUp_def)

text \<open>
  Claim C4, as the code has it. Pointer-cancel aborts an in-progress gesture: it
  re-enables the transition animation, clears the drag offset, the drag flags and the
  pointer id, and leaves the index, the track position, the animating flag, the modal and
  its error text as they were. Pointer-leave does not abort: \<open>handlePointerLeave\<close> hands
  the event to \<open>handlePointerUp\<close> and returns what a release at that position returns,
  a state whose drag offset, drag flags and pointer id are cleared.
\<close>

theorem cancel_aborts_leave_releases:
  assumes "isPointerDown s"
  shows "handlePointerCancel e s =
           resetCursorTimer (resetDragState (s\<lparr>allowTransition := True, dragOffset := 0\<rparr>))
     \<and> allowTransition (handlePointerCancel e s)
     \<and> drag_reset (handlePointerCancel e s)
     \<and> currentIndex (handlePointerCancel e s) = currentIndex s
     \<and> trackPosition (handlePointerCancel e s) = trackPosition s
     \<and> isAnimating (handlePointerCancel e s) = isAnimating s
     \<and> isModalOpen (handlePointerCancel e s) = isModalOpen s
     \<and> modalError (handlePointerCancel e s) = modalError s
     \<and> handlePointerLeave e s = handlePointerUp e s
     \<and> drag_reset (handlePointerLeave e s)"
proof -
  have "drag_reset (handlePointerLeave e s)"
    using assms handlePointerLeave_cases [of e s] by blast
  then show ?thesis
    unfolding handlePointerCancel_down [OF assms]
    by (simp add: after_release_fields drag_reset_after handlePointerLeave_is_up)
qed

theorem cancel_aborts_leave_releases_witness:
  "isPointerDown (ui (run (AnimationFrame # press_and_drag_left) (mounted example_promos 600)))
   \<and> drag_reset (handlePointerCancel (release_position 100)
        (ui (run (AnimationFrame # press_and_drag_left) (mounted example_promos 600))))
   \<and> allowTransition (handlePointerCancel (release_position 100)
        (ui (run (AnimationFrame # press_and_drag_left) (mounted example_promos 600))))
   \<and> currentIndex (handlePointerCancel (release_position 100)
        (ui (run (AnimationFrame # press_and_drag_left) (mounted example_promos 600))))
       = currentIndex (ui (run (AnimationFrame # press_and_drag_left) (mounted example_promos 600)))
   \<and> handlePointerLeave (release_position 100)
        (ui (run (AnimationFrame # press_and_drag_left) (mounted example_promos 600)))
       = handlePointerUp (release_position 100)
        (ui (run (AnimationFrame # press_and_drag_left) (mounted example_promos 600)))"
proof -
  let ?s = "ui (run (AnimationFrame # press_and_drag_left) (mounted example_promos 600))"
  have h: "isPointerDown ?s" by code_simp
  show ?thesis
    using h cancel_aborts_leave_releases [OF h, of "release_position 100"] by blast
qed

text \<open>
  The claim as worded fails on the code for pointer-leave. With a pointer down on the first
  of five slides and dragged 200 pixels to the left, pointer-leave moves to the second
  slide; with a pointer down and not moved, pointer-leave opens the modal.
\<close>

theorem pointer_leave_counterexample:
  "isPointerDown (ui (run (AnimationFrame # press_and_drag_left) (mounted example_promos 600)))
   \<and> currentIndex (ui (run (AnimationFrame # press_and_drag_left) (mounted example_promos 600))) = 0
   \<and> currentIndex (handlePointerLeave (release_position 100)
        (ui (run (AnimationFrame # press_and_drag_left) (mounted example_promos 600)))) = 1
   \<and> isPointerDown (ui (run press_only (mounted example_promos 600)))
   \<and> \<not> isModalOpen (ui (run press_only (mounted example_promos 600)))
   \<and> isModalOpen (handlePointerLeave (release_position 300)
        (ui (run press_only (mounted example_promos 600))))"
  by code_simp

subsection \<open>Settling the session-start request\<close>

lemma js_to_string_examples:
  "js_to_string (JArray [JNumber ''1'', JArray [JNumber ''2'', JNull], JString ''a''])
     = Some ''1,2,,a''
   \<and> js_to_string (JArray []) = Some ''''
   \<and> js_to_string (JObject [(''code'', JNumber ''7'')]) = Some ''[object Object]''
   \<and> js_to_string (JArray [JObject [(''toString'', JNull)]]) = None"
  by simp












subsection \<open>The preload cache is bounded\<close>

lemma slide_at_mem: "slide_at xs i = Some sl \<Longrightarrow> sl \<in> set xs"
  by (auto simp: slide_at_def split: if_splits)

lemma src_ok_with_originalId [simp]: "src_ok (with_originalId sl) = src_ok sl"
  by (cases sl) simp_all

lemma srcs_ok_slides: "srcs_ok (slidesSource s) \<Longrightarrow> srcs_ok (slides s)"
  by (simp add: srcs_ok_def slides_def placeholderSlide_def list_all_iff)

lemma evict_oldest_full:
  assumes "cache_ok c" and "u \<notin> set c" and "u \<noteq> ''''" and "length c = maxPreloadCacheSize"
  shows "evict_oldest (cache_add u c) = tl c @ [u]"
proof (cases c)
  case Nil
  with assms(4) show ?thesis by (simp add: maxPreloadCacheSize_def)
next
  case (Cons x xs)
  with assms(1,2) have "x \<noteq> ''''" and "x \<notin> set xs" and "x \<noteq> u"
    by (auto simp: cache_ok_def)
  with Cons assms(2) show ?thesis
    by (simp add: evict_oldest_def cache_add_def cache_delete_def)
qed

lemma preloadOne_present:
  "slide_at sls idx = Some (ImageSlide i u a oi) \<Longrightarrow> u \<in> set c \<Longrightarrow>
   preloadOne sls (c, rq) idx = (c, rq)"
  by (simp add: preloadOne_def)

lemma preloadOne_room:
  "slide_at sls idx = Some (ImageSlide i u a oi) \<Longrightarrow> u \<notin> set c \<Longrightarrow>
   length c < maxPreloadCacheSize \<Longrightarrow>
   preloadOne sls (c, rq) idx = (c @ [u], rq @ [PreloadImage u])"
  by (simp add: preloadOne_def cache_add_def Let_def)

lemma preloadOne_full:
  assumes "slide_at sls idx = Some (ImageSlide i u a oi)" and "u \<notin> set c" and "u \<noteq> ''''"
    and "cache_ok c" and "length c = maxPreloadCacheSize"
  shows "preloadOne sls (c, rq) idx = (tl c @ [u], rq @ [PreloadImage u])"
proof -
  have "length (cache_add u c) > maxPreloadCacheSize"
    using assms(2,5) by (simp add: cache_add_def)
  then show ?thesis
    using assms(1,2) evict_oldest_full [OF assms(4,2,3,5)]
    by (simp add: preloadOne_def Let_def)
qed

lemma cache_ok_tl_snoc:
  "cache_ok c \<Longrightarrow> u \<notin> set c \<Longrightarrow> u \<noteq> '''' \<Longrightarrow> length c = maxPreloadCacheSize \<Longrightarrow>
   cache_ok (tl c @ [u])"
  by (cases c) (auto simp: cache_ok_def maxPreloadCacheSize_def)

lemma cache_ok_snoc:
  "cache_ok c \<Longrightarrow> u \<notin> set c \<Longrightarrow> u \<noteq> '''' \<Longrightarrow> length c < maxPreloadCacheSize \<Longrightarrow>
   cache_ok (c @ [u])"
  by (auto simp: cache_ok_def)

lemma preloadOne_cache_ok:
  assumes "srcs_ok sls" and "cache_ok c"
  shows "cache_ok (fst (preloadOne sls (c, rq) idx))"
proof (cases "slide_at sls idx")
  case None
  with assms(2) show ?thesis by (simp add: preloadOne_def)
next
  case (Some sl)
  show ?thesis
  proof (cases sl)
    case (PlaceholderSlide i oi m)
    with Some assms(2) show ?thesis by (simp add: preloadOne_def)
  next
    case (ImageSlide i u a oi)
    with Some have at: "slide_at sls idx = Some (ImageSlide i u a oi)" by simp
    from slide_at_mem [OF at] assms(1) have u: "u \<noteq> ''''"
      by (auto simp: srcs_ok_def list_all_iff)
    show ?thesis
    proof (cases "u \<in> set c")
      case True
      with at assms(2) show ?thesis by (simp add: preloadOne_present)
    next
      case False
      show ?thesis
      proof (cases "length c < maxPreloadCacheSize")
        case True
        with at False u assms(2) show ?thesis
          by (simp add: preloadOne_room cache_ok_snoc)
      next
        case full: False
        with assms(2) have len: "length c = maxPreloadCacheSize"
          by (simp add: cache_ok_def)
        show ?thesis
          using preloadOne_full [OF at False u assms(2) len] cache_ok_tl_snoc [OF assms(2) False u len]
          by simp
      qed
    qed
  qed
qed

lemma foldl_preloadOne_cache_ok:
  "srcs_ok sls \<Longrightarrow> cache_ok (fst acc) \<Longrightarrow> cache_ok (fst (foldl (preloadOne sls) acc idxs))"
proof (induction idxs arbitrary: acc)
  case Nil
  then show ?case by simp
next
  case (Cons idx idxs)
  obtain c rq where acc: "acc = (c, rq)" by (cases acc)
  with Cons.prems have "cache_ok (fst (preloadOne sls acc idx))"
    by (simp add: preloadOne_cache_ok)
  with Cons.IH [OF Cons.prems(1)] show ?case by simp
qed

lemma preloadWatch_cache_ok:
  assumes "srcs_ok (slidesSource s)" and "cache_ok (preloadCache s)"
  shows "cache_ok (preloadCache (fst (preloadWatch s)))"
proof (cases "hasRealSlides s")
  case False
  with assms(2) show ?thesis by (simp add: preloadWatch_def)
next
  case True
  have "cache_ok (fst (foldl (preloadOne (slides s)) (preloadCache s, []) (preload_indices s)))"
    using foldl_preloadOne_cache_ok [OF srcs_ok_slides [OF assms(1)]] assms(2) by simp
  with True show ?thesis by (simp add: preloadWatch_def split_def Let_def)
qed

lemma preloadWatch_slidesSource: "slidesSource (fst (preloadWatch s)) = slidesSource s"
proof -
  obtain c where "fst (preloadWatch s) = s\<lparr>preloadCache := c\<rparr>"
    using preloadWatch_frame by blast
  then show ?thesis by simp
qed

lemma same_static_refl [simp]: "same_static s s"
  by (simp add: same_static_def)

lemma same_static_resetCursorTimer [simp]: "same_static s (resetCursorTimer s)"
  by (simp add: same_static_def resetCursorTimer_def Let_def)

lemma same_static_goNext [simp]: "same_static s (goNext s)"
  by (simp add: same_static_def goNext_def Let_def)

lemma same_static_goPrev [simp]: "same_static s (goPrev s)"
  by (simp add: same_static_def goPrev_def Let_def)

lemma same_static_openModal [simp]: "same_static s (openModal s)"
  by (simp add: same_static_def openModal_def Let_def)

lemma same_static_closeModal [simp]: "same_static s (closeModal s)"
  by (simp add: same_static_def closeModal_def resetCursorTimer_def Let_def)

lemma same_static_confirmStart_begin [simp]: "same_static s (fst (confirmStart_begin s))"
  by (simp add: same_static_def confirmStart_begin_def)

lemma same_static_confirmStart_settle [simp]: "same_static s (fst (confirmStart_settle r s))"
  by (simp add: same_static_def confirmStart_settle_def confirmStart_try_def split_def
      split: fetch_result.splits sum.splits)

lemma same_static_finishTransitionIfNeeded [simp]: "same_static s (finishTransitionIfNeeded s)"
  by (simp add: same_static_def finishTransitionIfNeeded_def Let_def)

lemma same_static_handleKeydown [simp]: "same_static s (fst (handleKeydown e s))"
  by (simp add: handleKeydown_def split: key.splits)

lemma same_static_handlePointerDown [simp]: "same_static s (handlePointerDown e s)"
  by (simp add: same_static_def handlePointerDown_def resetCursorTimer_def Let_def)

lemma same_static_handlePointerMove [simp]: "same_static s (handlePointerMove e s)"
  by (simp add: same_static_def handlePointerMove_def Let_def)

lemma same_static_handlePointerCancel [simp]: "same_static s (handlePointerCancel e s)"
  by (simp add: same_static_def handlePointerCancel_def resetCursorTimer_def resetDragState_def
      Let_def)

lemma static_resetCursorTimer [simp]:
  "slidesSource (resetCursorTimer s) = slidesSource s"
  "preloadCache (resetCursorTimer s) = preloadCache s"
  by (simp_all add: resetCursorTimer_def Let_def)

lemma static_resetDragState [simp]:
  "slidesSource (resetDragState s) = slidesSource s"
  "preloadCache (resetDragState s) = preloadCache s"
  by (simp_all add: resetDragState_def)

lemma static_openModal [simp]:
  "slidesSource (openModal s) = slidesSource s"
  "preloadCache (openModal s) = preloadCache s"
  by (simp_all add: openModal_def Let_def)

lemma static_triggerNavigationForDrag [simp]:
  "slidesSource (snd (triggerNavigationForDrag d s)) = slidesSource s"
  "preloadCache (snd (triggerNavigationForDrag d s)) = preloadCache s"
  using same_static_goNext [of s] same_static_goPrev [of s]
  by (simp_all add: triggerNavigationForDrag_def Let_def same_static_def)

lemma same_static_handlePointerUp [simp]: "same_static s (handlePointerUp e s)"
  by (simp add: same_static_def handlePointerUp_def Let_def split_def)

lemma same_static_handlePointerLeave [simp]: "same_static s (handlePointerLeave e s)"
  by (simp add: handlePointerLeave_is_up)

lemma same_static_handle: "same_static (ui w) (fst (handle ev w))"
  by (cases ev)
    (simp_all add: handle_def Let_def, simp_all add: same_static_def updateBounds_def cursorTimeout_def)

lemma cache_ok_step:
  assumes "srcs_ok (slidesSource (ui w))" and "cache_ok (preloadCache (ui w))"
  shows "srcs_ok (slidesSource (ui (step ev w))) \<and> cache_ok (preloadCache (ui (step ev w)))"
proof -
  let ?h = "fst (handle ev w)"
  have h: "srcs_ok (slidesSource ?h)" "cache_ok (preloadCache ?h)"
    using assms same_static_handle [of w ev] by (simp_all add: same_static_def)
  show ?thesis
  proof (cases "currentIndex ?h \<noteq> currentIndex (ui w)")
    case True
    then have "ui (step ev w) = fst (preloadWatch ?h)"
      by (simp add: step_def split_def Let_def)
    with h show ?thesis
      by (simp add: preloadWatch_cache_ok preloadWatch_slidesSource)
  next
    case False
    then have "ui (step ev w) = ?h"
      by (simp add: step_def split_def Let_def)
    with h show ?thesis by simp
  qed
qed

lemma cache_ok_run:
  "srcs_ok (slidesSource (ui w)) \<Longrightarrow> cache_ok (preloadCache (ui w)) \<Longrightarrow>
   cache_ok (preloadCache (ui (run evs w)))"
  by (induction evs arbitrary: w) (simp_all add: cache_ok_step)

lemma cache_ok_mounted:
  assumes "srcs_ok ps"
  shows "srcs_ok (slidesSource (ui (mounted ps cw))) \<and> cache_ok (preloadCache (ui (mounted ps cw)))"
proof -
  let ?s1 = "(setup_state ps)\<lparr>allowTransition := False, trackPosition := 0, currentIndex := 0,
                  dragOffset := 0, isAnimating := False\<rparr>"
  have a: "srcs_ok (slidesSource ?s1)" using assms by (simp add: setup_state_def)
  have b: "cache_ok (preloadCache ?s1)" by (simp add: setup_state_def cache_ok_def)
  have "ui (mounted ps cw) = resetCursorTimer (updateBounds cw (fst (preloadWatch ?s1)))"
    by (simp add: mounted_def Let_def split_def)
  then have "slidesSource (ui (mounted ps cw)) = slidesSource (fst (preloadWatch ?s1))"
    and "preloadCache (ui (mounted ps cw)) = preloadCache (fst (preloadWatch ?s1))"
    by (simp_all add: resetCursorTimer_def updateBounds_def Let_def)
  then show ?thesis
    using preloadWatch_cache_ok [OF a b] a by (simp add: preloadWatch_slidesSource)
qed

text \<open>
  Claim C7. Every promo slide has a non-empty source (the slide list is built from the
  entries that pass the filter \<open>typeof url === 'string' && url\<close>). Then in every state the
  component reaches from mounting the preload cache holds at most 50 entries, and each
  single insertion keeps it so. An insertion into a cache of 50 removes the entry that was
  inserted first and puts the new source last. A source that is in the cache is not
  requested and the cache is left as it is.
\<close>

theorem preload_cache_bounded:
  assumes "srcs_ok promoSlides"
  shows "length (preloadCache (ui (run evs (mounted promoSlides clientWidth)))) \<le> 50
     \<and> (srcs_ok sls \<and> cache_ok c \<longrightarrow> length (fst (preloadOne sls (c, rq) idx)) \<le> 50)
     \<and> (srcs_ok sls \<and> cache_ok c \<and> length c = 50 \<and> u \<notin> set c
          \<and> slide_at sls idx = Some (ImageSlide i u a oi) \<longrightarrow>
        preloadOne sls (c, rq) idx = (tl c @ [u], rq @ [PreloadImage u]))
     \<and> (u \<in> set c \<and> slide_at sls idx = Some (ImageSlide i u a oi) \<longrightarrow>
        preloadOne sls (c, rq) idx = (c, rq))"
proof -
  have "cache_ok (preloadCache (ui (run evs (mounted promoSlides clientWidth))))"
    using cache_ok_mounted [OF assms] cache_ok_run by blast
  then have a: "length (preloadCache (ui (run evs (mounted promoSlides clientWidth)))) \<le> 50"
    by (simp add: cache_ok_def maxPreloadCacheSize_def)
  have b: "srcs_ok sls \<and> cache_ok c \<longrightarrow> length (fst (preloadOne sls (c, rq) idx)) \<le> 50"
    using preloadOne_cache_ok [of sls c rq idx] by (simp add: cache_ok_def maxPreloadCacheSize_def)
  have c: "srcs_ok sls \<and> cache_ok c \<and> length c = 50 \<and> u \<notin> set c
          \<and> slide_at sls idx = Some (ImageSlide i u a oi) \<longrightarrow>
        preloadOne sls (c, rq) idx = (tl c @ [u], rq @ [PreloadImage u])"
  proof (intro impI, elim conjE)
    assume s: "srcs_ok sls" and k: "cache_ok c" and l: "length c = 50" and n: "u \<notin> set c"
      and at: "slide_at sls idx = Some (ImageSlide i u a oi)"
    from slide_at_mem [OF at] s have "u \<noteq> ''''"
      by (auto simp: srcs_ok_def list_all_iff)
    with preloadOne_full [OF at n _ k] l show "preloadOne sls (c, rq) idx = (tl c @ [u], rq @ [PreloadImage u])"
      by (simp add: maxPreloadCacheSize_def)
  qed
  have d: "u \<in> set c \<and> slide_at sls idx = Some (ImageSlide i u a oi) \<longrightarrow>
        preloadOne sls (c, rq) idx = (c, rq)"
    by (simp add: preloadOne_present)
  from a b c d show ?thesis by blast
qed
theorem preload_cache_bounded_witness:
  "srcs_ok example_promos
   \<and> length (preloadCache (ui (run at_last_slide (mounted example_promos 600)))) \<le> 50
   \<and> srcs_ok (slides example_state)
   \<and> cache_ok full_cache
   \<and> length full_cache = 50
   \<and> ''/images/promos/3.png'' \<notin> set full_cache
   \<and> slide_at (slides example_state) 2
       = Some (ImageSlide ''3.png'' ''/images/promos/3.png'' ''3 promotion'' (Some ''3.png''))
   \<and> preloadOne (slides example_state) (full_cache, []) 2
       = (tl full_cache @ [''/images/promos/3.png''], [] @ [PreloadImage ''/images/promos/3.png''])
   \<and> ''/images/promos/3.png'' \<in> set [''/images/promos/3.png'']
   \<and> preloadOne (slides example_state) ([''/images/promos/3.png''], []) 2
       = ([''/images/promos/3.png''], [])"
proof -
  have h1: "srcs_ok example_promos" by code_simp
  have h2: "srcs_ok (slides example_state)" by code_simp
  have h3: "cache_ok full_cache" by code_simp
  have h4: "length full_cache = 50" by code_simp
  have h5: "''/images/promos/3.png'' \<notin> set full_cache" by code_simp
  have h6: "slide_at (slides example_state) 2
       = Some (ImageSlide ''3.png'' ''/images/promos/3.png'' ''3 promotion'' (Some ''3.png''))"
    by code_simp
  have h7: "''/images/promos/3.png'' \<in> set [''/images/promos/3.png'']" by simp
  show ?thesis
    using h1 h2 h3 h4 h5 h6 h7
      preload_cache_bounded [OF h1, of at_last_slide 600 "slides example_state" full_cache "[]" 2
        "''/images/promos/3.png''" "''3.png''" "''3 promotion''" "Some ''3.png''"]
      preload_cache_bounded [OF h1, of at_last_slide 600 "slides example_state"
        "[''/images/promos/3.png'']" "[]" 2
        "''/images/promos/3.png''" "''3.png''" "''3 promotion''" "Some ''3.png''"]
    by blast
qed
subsection \<open>Navigation behind the open modal\<close>

lemma arrows_ignored_while_modal_open:
  "isModalOpen s \<Longrightarrow>
   handleKeydown \<lparr>key = ArrowRight, repeat = rp\<rparr> s = (s, [])
   \<and> handleKeydown \<lparr>key = ArrowLeft, repeat = rp\<rparr> s = (s, [])"
  by (simp add: handleKeydown_def)

text \<open>
  Claim C9: while the modal is open, no pointer gesture triggers \<open>goNext\<close> or \<open>goPrev\<close>.
  Pointer-down, pointer-move and the arrow keys are ignored while the modal is open
  (\<open>modal_handlePointerDown\<close>, \<open>modal_handlePointerMove\<close>,
  \<open>arrows_ignored_while_modal_open\<close>), but \<open>handlePointerUp\<close> tests \<open>isModalOpen\<close> only
  before opening the modal, not before navigating. So a drag that engaged before the modal
  was opened still navigates when it is released: press at \<open>x = 300\<close>, drag to \<open>x = 100\<close>,
  press Enter (the modal opens), release. The modal is open before and after the release,
  and the release moves the carousel from the first slide to the second.
\<close>

theorem release_navigates_behind_modal:
  "isModalOpen (ui (run (AnimationFrame # press_and_drag_left @ [Keydown \<lparr>key = Enter, repeat = False\<rparr>])
      (mounted example_promos 600)))
   \<and> currentIndex (ui (run (AnimationFrame # press_and_drag_left @ [Keydown \<lparr>key = Enter, repeat = False\<rparr>])
      (mounted example_promos 600))) = 0
   \<and> isModalOpen (ui (step (PointerUp (release_position 100))
      (run (AnimationFrame # press_and_drag_left @ [Keydown \<lparr>key = Enter, repeat = False\<rparr>])
        (mounted example_promos 600))))
   \<and> currentIndex (ui (step (PointerUp (release_position 100))
      (run (AnimationFrame # press_and_drag_left @ [Keydown \<lparr>key = Enter, repeat = False\<rparr>])
        (mounted example_promos 600)))) = 1"
  by code_simp

end
